theory Spec2Isabelle
  imports Complex_Main "HOL-Library.Multiset"
begin

section \<open>Tensor elements\<close>

text \<open>
  The node computes on torch tensors of floating-point numbers. An element is modelled
  as a real number or one of the three special values of IEEE arithmetic. Arithmetic on
  finite values is exact: rounding, overflow to infinity and the sign of zero are not
  modelled (a division of a non-zero number by zero gives the infinity with the sign of
  the numerator). The special values follow IEEE: \<open>NaN\<close> is absorbing,
  \<open>inf - inf\<close>, \<open>0 * inf\<close>, \<open>0 / 0\<close> and \<open>inf / inf\<close> are \<open>NaN\<close>.
\<close>

datatype tfloat = NaN | NInf | Fin real | PInf

definition inf_of :: "real \<Rightarrow> tfloat" where
  "inf_of s = (if s = 0 then NaN else if 0 < s then PInf else NInf)"

fun fsgn :: "tfloat \<Rightarrow> real" where
  "fsgn NaN = 0"
| "fsgn NInf = - 1"
| "fsgn (Fin a) = sgn a"
| "fsgn PInf = 1"

instantiation tfloat :: comm_monoid_add
begin

definition zero_tfloat :: tfloat where
  "zero_tfloat = Fin 0"

fun plus_tfloat :: "tfloat \<Rightarrow> tfloat \<Rightarrow> tfloat" where
  "plus_tfloat NaN y = NaN"
| "plus_tfloat x NaN = NaN"
| "plus_tfloat (Fin a) (Fin b) = Fin (a + b)"
| "plus_tfloat PInf NInf = NaN"
| "plus_tfloat NInf PInf = NaN"
| "plus_tfloat PInf y = PInf"
| "plus_tfloat x PInf = PInf"
| "plus_tfloat NInf y = NInf"
| "plus_tfloat x NInf = NInf"

instance
proof
  fix x y z :: tfloat
  show "0 + x = x"
    by (cases x) (simp_all add: zero_tfloat_def)
  show "x + y = y + x"
    by (cases x; cases y) simp_all
  show "x + y + z = x + (y + z)"
    by (cases x; cases y; cases z) simp_all
qed

end

instantiation tfloat :: "{uminus, minus, times, inverse}"
begin

fun uminus_tfloat :: "tfloat \<Rightarrow> tfloat" where
  "uminus_tfloat NaN = NaN"
| "uminus_tfloat NInf = PInf"
| "uminus_tfloat (Fin a) = Fin (- a)"
| "uminus_tfloat PInf = NInf"

definition minus_tfloat :: "tfloat \<Rightarrow> tfloat \<Rightarrow> tfloat" where
  "minus_tfloat x y = x + (- y)"

fun times_tfloat :: "tfloat \<Rightarrow> tfloat \<Rightarrow> tfloat" where
  "times_tfloat NaN y = NaN"
| "times_tfloat x NaN = NaN"
| "times_tfloat (Fin a) (Fin b) = Fin (a * b)"
| "times_tfloat x y = inf_of (fsgn x * fsgn y)"

fun divide_tfloat :: "tfloat \<Rightarrow> tfloat \<Rightarrow> tfloat" where
  "divide_tfloat NaN y = NaN"
| "divide_tfloat x NaN = NaN"
| "divide_tfloat (Fin a) (Fin b) = (if b = 0 then inf_of (sgn a) else Fin (a / b))"
| "divide_tfloat (Fin a) y = Fin 0"
| "divide_tfloat x (Fin b) = inf_of (fsgn x * (if b < 0 then - 1 else 1))"
| "divide_tfloat x y = NaN"

definition inverse_tfloat :: "tfloat \<Rightarrow> tfloat" where
  "inverse_tfloat x = divide (Fin 1) x"

instance ..

end

text \<open>\<open>torch.clip(t, min=lo)\<close> and \<open>torch.clip(t, min=lo, max=hi)\<close>; \<open>NaN\<close> stays \<open>NaN\<close>.\<close>

fun clip_min :: "tfloat \<Rightarrow> real \<Rightarrow> tfloat" where
  "clip_min NaN lo = NaN"
| "clip_min NInf lo = Fin lo"
| "clip_min (Fin a) lo = Fin (max a lo)"
| "clip_min PInf lo = PInf"

fun clip :: "tfloat \<Rightarrow> real \<Rightarrow> real \<Rightarrow> tfloat" where
  "clip NaN lo hi = NaN"
| "clip NInf lo hi = Fin (min lo hi)"
| "clip (Fin a) lo hi = Fin (min (max a lo) hi)"
| "clip PInf lo hi = Fin hi"

text \<open>The largest finite single-precision number, which \<open>torch.nan_to_num\<close> puts in
  the place of an infinity.\<close>

definition float_max :: real where
  "float_max = (2 - 1 / 2 ^ 23) * 2 ^ 127"

fun nan_to_num :: "tfloat \<Rightarrow> real \<Rightarrow> tfloat" where
  "nan_to_num NaN v = Fin v"
| "nan_to_num NInf v = Fin (- float_max)"
| "nan_to_num (Fin a) v = Fin a"
| "nan_to_num PInf v = Fin float_max"

fun fexp :: "tfloat \<Rightarrow> tfloat" where
  "fexp NaN = NaN"
| "fexp NInf = Fin 0"
| "fexp (Fin a) = Fin (exp a)"
| "fexp PInf = PInf"

text \<open>\<open>t ** n\<close> for a non-negative integer \<open>n\<close>; \<open>t ** 0\<close> is 1 for every \<open>t\<close>.\<close>

fun fpow :: "tfloat \<Rightarrow> nat \<Rightarrow> tfloat" where
  "fpow t 0 = Fin 1"
| "fpow NaN (Suc n) = NaN"
| "fpow NInf (Suc n) = (if even (Suc n) then PInf else NInf)"
| "fpow (Fin a) (Suc n) = Fin (a ^ Suc n)"
| "fpow PInf (Suc n) = PInf"

text \<open>\<open>a == b\<close> and \<open>a > b\<close> on elements: every comparison with \<open>NaN\<close> is false.\<close>

fun feq :: "tfloat \<Rightarrow> tfloat \<Rightarrow> bool" where
  "feq NaN y = False"
| "feq x NaN = False"
| "feq x y = (x = y)"

fun fless :: "tfloat \<Rightarrow> tfloat \<Rightarrow> bool" where
  "fless NaN y = False"
| "fless x NaN = False"
| "fless (Fin a) (Fin b) = (a < b)"
| "fless x PInf = (x \<noteq> PInf)"
| "fless NInf y = (y \<noteq> NInf)"
| "fless x y = False"

text \<open>\<open>torch.max\<close> of two elements: \<open>NaN\<close> propagates.\<close>

fun fmax :: "tfloat \<Rightarrow> tfloat \<Rightarrow> tfloat" where
  "fmax NaN y = NaN"
| "fmax x NaN = NaN"
| "fmax x y = (if fless x y then y else x)"

section \<open>The pose grid\<close>

text \<open>
  A tensor of shape \<open>[num_grid_cells, num_grid_cells, num_orientation_cells]\<close> is a
  function of its index \<open>(iy, ix, itheta)\<close>; \<open>cells\<close> lists the indices in row-major
  order, the order of \<open>flatten\<close>, \<open>nonzero\<close> and of a sum over the whole tensor.
  Elementwise tensor operations are written at one cell.
\<close>

type_synonym cell = "nat \<times> nat \<times> nat"
type_synonym grid = "cell \<Rightarrow> tfloat"

definition f_x :: real where "f_x = 494"
definition f_y :: real where "f_y = 294"

definition num_grid_cells :: nat where "num_grid_cells = 101"
definition num_orientation_cells :: nat where "num_orientation_cells = 128"
definition world_grid_length :: real where "world_grid_length = 3.0"
definition world_cell_size :: real where
  "world_cell_size = world_grid_length / real num_grid_cells"
definition grid_cells_origin_x :: real where "grid_cells_origin_x = - 1.5"
definition grid_cells_origin_y :: real where "grid_cells_origin_y = - 1.5"
definition world_z :: real where "world_z = 0.24"

definition cells :: "cell list" where
  "cells = [(iy, ix, itheta). iy \<leftarrow> [0..<num_grid_cells], ix \<leftarrow> [0..<num_grid_cells],
              itheta \<leftarrow> [0..<num_orientation_cells]]"

definition world_position :: "nat \<Rightarrow> real" where
  "world_position i = (real i + 0.5) * world_cell_size - world_grid_length / 2.0"

definition world_xs :: "nat \<Rightarrow> real" where
  "world_xs i = world_position i"

text \<open>\<open>torch.flip(world_position, dims=[0])\<close>.\<close>

definition world_ys :: "nat \<Rightarrow> real" where
  "world_ys i = world_position (num_grid_cells - 1 - i)"

definition world_thetas :: "nat \<Rightarrow> real" where
  "world_thetas k = real k * 2 * pi / real num_orientation_cells"

text \<open>\<open>torch.meshgrid(world_xs, world_ys, world_thetas, indexing='xy')\<close>: the first output
  axis runs over \<open>world_ys\<close>, the second over \<open>world_xs\<close>.\<close>

fun world_x :: "cell \<Rightarrow> real" where
  "world_x (iy, ix, itheta) = world_xs ix"

fun world_y :: "cell \<Rightarrow> real" where
  "world_y (iy, ix, itheta) = world_ys iy"

fun world_theta :: "cell \<Rightarrow> real" where
  "world_theta (iy, ix, itheta) = world_thetas itheta"

text \<open>The sum of all elements of a tensor.\<close>

definition grid_sum :: "grid \<Rightarrow> tfloat" where
  "grid_sum m = sum_list (map m cells)"

section \<open>Landmarks and the camera\<close>

datatype world_point = WorldPoint (point_x: real) (point_y: real) (point_z: real)

record world_object =
  name :: string
  centre :: world_point
  bottom_left :: world_point
  bottom_right :: world_point
  top_left :: world_point
  top_right :: world_point

datatype camera_point = CameraPoint (cam_x: tfloat) (cam_y: tfloat)

text \<open>One cell of the source's \<open>BoundingBoxes\<close>, whose three fields are tensors.\<close>

record bounding_boxes =
  center :: camera_point
  width :: tfloat
  height :: tfloat

record object_detection =
  bounding_boxes :: "cell \<Rightarrow> bounding_boxes"
  detection_probabilities :: grid

definition world_dog :: world_object where
  "world_dog = \<lparr> name = ''dog'',
      centre = WorldPoint 1.5 0.0 0.27,
      bottom_left = WorldPoint 1.5 0.11 0.02,
      bottom_right = WorldPoint 1.5 (- 0.11) 0.02,
      top_left = WorldPoint 1.5 0.11 0.52,
      top_right = WorldPoint 1.5 (- 0.11) 0.52 \<rparr>"

definition world_cat :: world_object where
  "world_cat = \<lparr> name = ''cat'',
      centre = WorldPoint 0.5 (- 1.5) 0.27,
      bottom_left = WorldPoint (0.5 - 0.11) 1.5 0.02,
      bottom_right = WorldPoint (0.5 + 0.11) 1.5 0.02,
      top_left = WorldPoint (0.5 - 0.11) 1.5 0.52,
      top_right = WorldPoint (0.5 + 0.11) 1.5 0.52 \<rparr>"

text \<open>
  \<open>world_to_camera\<close> at one cell. The translation and the rotation work on finite
  numbers; the two divisions by \<open>world_rotate_x\<close> are where a non-finite value can arise.
\<close>

definition world_to_camera :: "world_point \<Rightarrow> cell \<Rightarrow> camera_point" where
  "world_to_camera world_point c =
    (let world_translate_x = point_x world_point - world_x c;
         world_translate_y = point_y world_point - world_y c;
         world_translate_z = point_z world_point - world_z;
         world_rotate_x = sin (world_theta c) * world_translate_y
                          + cos (world_theta c) * world_translate_x;
         world_rotate_y = cos (world_theta c) * world_translate_y
                          - sin (world_theta c) * world_translate_x;
         world_rotate_z = world_translate_z;
         camera_pred_x = Fin 160 + Fin (f_x * (- world_rotate_y)) / Fin world_rotate_x;
         camera_pred_y = Fin 120 + Fin (f_y * - world_rotate_z) / Fin world_rotate_x
     in CameraPoint camera_pred_x camera_pred_y)"

definition world_to_bbox :: "world_object \<Rightarrow> cell \<Rightarrow> bounding_boxes" where
  "world_to_bbox world_object c =
    (let camera_pred_centre = world_to_camera (centre world_object) c;
         camera_pred_top_left = world_to_camera (top_left world_object) c;
         camera_pred_top_right = world_to_camera (top_right world_object) c;
         camera_pred_bottom_left = world_to_camera (bottom_left world_object) c;
         camera_pred_bottom_right = world_to_camera (bottom_right world_object) c;
         pred_left = (cam_x camera_pred_bottom_left + cam_x camera_pred_top_left) / Fin 2;
         pred_right = (cam_x camera_pred_bottom_right + cam_x camera_pred_top_right) / Fin 2;
         pred_top = (cam_y camera_pred_top_left + cam_y camera_pred_top_right) / Fin 2;
         pred_bottom = (cam_y camera_pred_bottom_left + cam_y camera_pred_bottom_right) / Fin 2;
         camera_pred_width = clip_min (pred_right - pred_left) 0.0;
         camera_pred_height = clip_min (pred_bottom - pred_top) 0.0
     in \<lparr> center = camera_pred_centre, width = camera_pred_width,
          height = camera_pred_height \<rparr>)"

definition box_probability :: "bounding_boxes \<Rightarrow> tfloat" where
  "box_probability boxes =
    (let cons_camera_left_x = clip (cam_x (center boxes) - width boxes) (- 160) 160;
         cons_camera_right_x = clip (cam_x (center boxes) + width boxes) (- 160) 160;
         cons_camera_bottom_y = clip (cam_y (center boxes) - height boxes) (- 120) 120;
         cons_camera_top_y = clip (cam_y (center boxes) + height boxes) (- 120) 120;
         cons_area = (cons_camera_right_x - cons_camera_left_x)
                     * (cons_camera_top_y - cons_camera_bottom_y);
         area_ratio = cons_area / ((width boxes * height boxes) + cons_area);
         area_ratio = nan_to_num area_ratio 0.0
     in Fin 0.05 * (Fin 1 - area_ratio) + Fin 0.95 * area_ratio)"


section \<open>Detections and the observation likelihood\<close>

record bounding_box2d =
  center_position_x :: real
  center_position_y :: real
  size_x :: real
  size_y :: real

text \<open>A detection of the incoming message: its box, and the class ids of its result
  hypotheses in the order of \<open>results\<close>.\<close>

record detection =
  bbox :: bounding_box2d
  results :: "string list"

datatype error = IndexError | KeyError | AttributeError

fun fln :: "tfloat \<Rightarrow> tfloat" where
  "fln NaN = NaN"
| "fln NInf = NaN"
| "fln (Fin a) = (if a < 0 then NaN else if a = 0 then NInf else Fin (ln a))"
| "fln PInf = PInf"

text \<open>\<open>torch.distributions.normal.Normal(loc, scale).log_prob(value)\<close>, by the formula
  of the library: \<open>-((value - loc) ** 2) / (2 * scale ** 2) - log(scale) - log(sqrt(2 * pi))\<close>.
  Where the library validates its arguments it refuses a \<open>NaN\<close> location; here the value
  is \<open>NaN\<close> then. The predicted boxes of the two landmarks are not \<open>NaN\<close> at any cell of the
  grid (lemmas \<open>dog_boxes_no_NaN\<close> and \<open>cat_boxes_no_NaN\<close> below).\<close>

definition normal_log_prob :: "tfloat \<Rightarrow> real \<Rightarrow> real \<Rightarrow> tfloat" where
  "normal_log_prob loc scale v =
     - (fpow (Fin v - loc) 2) / Fin (2 * scale ^ 2) - Fin (ln scale) - Fin (ln (sqrt (2 * pi)))"

text \<open>\<open>torch.logsumexp(res, dim=[0, 1, 2])\<close>: the logarithm of the sum of the
  exponentials of all elements.\<close>

definition logsumexp :: "grid \<Rightarrow> tfloat" where
  "logsumexp res = fln (grid_sum (\<lambda>c. fexp (res c)))"

definition prob_map :: "bounding_box2d \<Rightarrow> (cell \<Rightarrow> bounding_boxes) \<Rightarrow> grid" where
  "prob_map box boxes =
    (let scale = 25.0;
         res1 = (\<lambda>c. normal_log_prob (cam_x (center (boxes c))) scale (center_position_x box));
         res2 = (\<lambda>c. normal_log_prob (width (boxes c)) scale (size_x box));
         res3 = (\<lambda>c. normal_log_prob (height (boxes c)) scale (size_y box));
         res4 = (\<lambda>c. normal_log_prob (cam_y (center (boxes c))) scale (center_position_y box));
         res = (\<lambda>c. res1 c + res2 c + res3 c + res4 c);
         mynorm = (\<lambda>c. res c - logsumexp res);
         smyprobs = (\<lambda>c. fexp (mynorm c))
     in smyprobs)"

definition world_dog_boxes :: "cell \<Rightarrow> bounding_boxes" where
  "world_dog_boxes = world_to_bbox world_dog"

definition world_cat_boxes :: "cell \<Rightarrow> bounding_boxes" where
  "world_cat_boxes = world_to_bbox world_cat"

definition object_dictionary :: "string \<rightharpoonup> object_detection" where
  "object_dictionary =
     [''dog'' \<mapsto> \<lparr> bounding_boxes = world_to_bbox world_dog,
                    detection_probabilities = (\<lambda>c. box_probability (world_dog_boxes c)) \<rparr>,
      ''cat'' \<mapsto> \<lparr> bounding_boxes = world_to_bbox world_cat,
                    detection_probabilities = (\<lambda>c. box_probability (world_cat_boxes c)) \<rparr>]"

text \<open>\<open>list(self.object_dictionary.keys())\<close>, in insertion order.\<close>

definition object_list :: "string list" where
  "object_list = [''dog'', ''cat'']"

text \<open>\<open>self.object_list[idx]\<close> followed by \<open>self.object_dictionary[...]\<close>, with the two
  exceptions the lookups can raise.\<close>

definition object_at :: "nat \<Rightarrow> error + (string \<times> object_detection)" where
  "object_at idx =
     (if idx < length object_list then
        (case object_dictionary (object_list ! idx) of
           None \<Rightarrow> Inl KeyError
         | Some od \<Rightarrow> Inr (object_list ! idx, od))
      else Inl IndexError)"

definition prob_dist_random :: real where
  "prob_dist_random = 0.05 * 0.01 * 0.01 * 0.01 * 0.01"

fun probmessage_cond_a :: "detection list \<Rightarrow> nat list \<Rightarrow> error + grid" where
  "probmessage_cond_a detections_msg [] =
     Inr (\<lambda>c. fpow (Fin prob_dist_random + Fin (world_x c * 0.0)) (length detections_msg))"
| "probmessage_cond_a detections_msg (proposal # remaining_proposals) =
     fold (\<lambda>assign_idx acc.
        case acc of
          Inl e \<Rightarrow> Inl e
        | Inr cum_prob \<Rightarrow>
           (let rem_detections = take assign_idx detections_msg
                                 @ drop (assign_idx + 1) detections_msg
            in case object_at proposal of
                 Inl e \<Rightarrow> Inl e
               | Inr (proposal_name, od) \<Rightarrow>
                  (let prob_assignment =
                         prob_map (bbox (detections_msg ! assign_idx)) (bounding_boxes od)
                   in case results (detections_msg ! assign_idx) of
                        [] \<Rightarrow> Inl IndexError
                      | class_id # _ \<Rightarrow>
                         (let prob_assignment =
                                (if proposal_name \<noteq> class_id
                                 then (\<lambda>c. prob_assignment c * Fin 0.0)
                                 else prob_assignment)
                          in case probmessage_cond_a rem_detections remaining_proposals of
                               Inl e \<Rightarrow> Inl e
                             | Inr rem_prob \<Rightarrow>
                                Inr (\<lambda>c. cum_prob c
                                          + (prob_assignment c * rem_prob c)
                                            / Fin (real (length detections_msg)))))))
       [0..<length detections_msg]
       (Inr (\<lambda>c. Fin (world_x c * 0.0)))"

text \<open>In the inner loop the source tests \<open>idx == False\<close>, which in Python holds exactly
  when \<open>idx\<close> is 0.\<close>

definition probmessage :: "detection list \<Rightarrow> error + grid" where
  "probmessage detections_msg =
    (let comb = product_lists (replicate 2 [False, True])
     in fold (\<lambda>assignment acc.
          case acc of
            Inl e \<Rightarrow> Inl e
          | Inr s \<Rightarrow>
             (case fold (\<lambda>idx acc'.
                      case acc' of
                        Inl e \<Rightarrow> Inl e
                      | Inr probs \<Rightarrow>
                         (case object_at idx of
                            Inl e \<Rightarrow> Inl e
                          | Inr (object_name, od) \<Rightarrow>
                             (if idx = 0
                              then Inr (\<lambda>c. probs c * (Fin 1.0 - detection_probabilities od c))
                              else Inr (\<lambda>c. probs c * detection_probabilities od c))))
                    [0..<length assignment]
                    (Inr (\<lambda>c. Fin (world_x c * 0.0 + 1.0))) of
                Inl e \<Rightarrow> Inl e
              | Inr probs \<Rightarrow>
                 (let assignments = [i. (i, x) \<leftarrow> enumerate 0 assignment, x]
                  in case probmessage_cond_a detections_msg assignments of
                       Inl e \<Rightarrow> Inl e
                     | Inr p \<Rightarrow> Inr (\<lambda>c. s c + p c * probs c))))
          comb
          (Inr (\<lambda>c. Fin (world_x c * 0.0))))"

section \<open>The filter\<close>

text \<open>An odometry message: the position, and the yaw that \<open>euler_from_quaternion\<close>
  extracts from the orientation quaternion.\<close>

record odometry =
  position_x :: real
  position_y :: real
  orientation_yaw :: real

text \<open>What the node publishes. \<open>ProbMapMsg\<close> records the belief that
  \<open>publish_occupancy_grid_msg\<close> is called with; the message computed from it (the sum over
  yaw, the 3 by 3 filter, the scaling to 0..100) is not modelled. \<open>NavPoseMsg\<close> is the pose,
  with the yaw given to \<open>R.from_euler\<close>.\<close>

datatype publication = ProbMapMsg grid | NavPoseMsg real real real

record nav =
  detections :: "detection list option"
  last_inertial_position :: "(real \<times> real) option"
  last_inertial_orientation :: "real option"
  current_probability_map :: grid
  state :: nat
  published :: "publication list"

definition set_uniform_pose_map :: "nav \<Rightarrow> nav" where
  "set_uniform_pose_map self =
     self\<lparr> current_probability_map :=
       (\<lambda>c. Fin 0 + Fin (1.0 / real (num_grid_cells * num_grid_cells * num_orientation_cells))) \<rparr>"

definition set_center_pose_map :: "nav \<Rightarrow> nav" where
  "set_center_pose_map self =
     self\<lparr> current_probability_map :=
       (\<lambda>c. if c = (num_grid_cells div 2, num_grid_cells div 2, 0) then Fin 1.0 else Fin 0) \<rparr>"

text \<open>The node after \<open>__init__\<close>.\<close>

definition init :: nav where
  "init = set_uniform_pose_map
     \<lparr> detections = None, last_inertial_position = None, last_inertial_orientation = None,
       current_probability_map = (\<lambda>c. Fin 0), state = 0, published = [] \<rparr>"

definition detections_callback :: "nav \<Rightarrow> detection list \<Rightarrow> nav" where
  "detections_callback self msg = self\<lparr> detections := Some msg \<rparr>"

text \<open>
  The loop of \<open>inertial_update\<close> resamples the belief with \<open>scipy.ndimage.shift\<close>,
  \<open>scipy.ndimage.rotate\<close> and \<open>conv2d\<close>, library routines that are not part of the
  repository. Their composition is the parameter \<open>resample\<close>: it receives the belief, the
  shift of the position kernel along its second axis and the shift along the yaw axis.
\<close>

type_synonym resampler = "grid \<Rightarrow> real \<Rightarrow> real \<Rightarrow> grid"

definition inertial_update ::
  "resampler \<Rightarrow> nav \<Rightarrow> real \<times> real \<Rightarrow> real \<times> real \<Rightarrow> real \<Rightarrow> real \<Rightarrow> bool \<times> grid" where
  "inertial_update resample self last_inertial_position' current_inertial_position
       last_inertial_orientation' current_inertial_orientation =
    (let inertial_position_difference =
           (fst current_inertial_position - fst last_inertial_position',
            snd current_inertial_position - snd last_inertial_position');
         inertial_orientation_difference =
           current_inertial_orientation - last_inertial_orientation';
         inertial_forward =
           cos current_inertial_orientation * fst inertial_position_difference
           + sin current_inertial_orientation * snd inertial_position_difference;
         s = resample (current_probability_map self)
               (- inertial_forward / world_cell_size)
               (inertial_orientation_difference * real num_orientation_cells / (2 * 3.141))
     in if sqrt ((fst inertial_position_difference)\<^sup>2 + (snd inertial_position_difference)\<^sup>2)
             > 0.001
           \<or> \<bar>inertial_orientation_difference\<bar> > 0.001
        then (True, s)
        else (False, s))"

text \<open>\<open>torch.max\<close> over a whole tensor.\<close>

definition grid_max :: "grid \<Rightarrow> tfloat" where
  "grid_max m = fold (\<lambda>c acc. fmax acc (m c)) cells NInf"

text \<open>\<open>argmax\<close> of a vector of length \<open>n\<close>: the first index that holds the maximum.\<close>

definition argmax :: "(nat \<Rightarrow> tfloat) \<Rightarrow> nat \<Rightarrow> nat" where
  "argmax v n =
     (let mx = fold (\<lambda>k acc. fmax acc (v k)) [0..<n] NInf
      in case filter (\<lambda>k. v k = mx) [0..<n] of [] \<Rightarrow> 0 | k # _ \<Rightarrow> k)"

text \<open>\<open>(map == torch.max(map)).nonzero()[0]\<close> is the first index, in row-major order,
  of an element equal to the maximum; with no such element the indexing raises.\<close>

definition get_location_MLE :: "grid \<Rightarrow> error + (cell \<times> nat)" where
  "get_location_MLE pose_probability_map =
     (case filter (\<lambda>c. feq (pose_probability_map c) (grid_max pose_probability_map)) cells of
        [] \<Rightarrow> Inl IndexError
      | loc # _ \<Rightarrow>
         (let orientation =
                argmax (\<lambda>k. pose_probability_map (fst loc, fst (snd loc), k))
                       num_orientation_cells
          in Inr (loc, orientation)))"

definition publish_pose_msg :: "grid \<Rightarrow> error + publication" where
  "publish_pose_msg pose_probability_map =
     (case get_location_MLE pose_probability_map of
        Inl e \<Rightarrow> Inl e
      | Inr (loc, orientation) \<Rightarrow>
         Inr (NavPoseMsg
                (grid_cells_origin_x + real (fst (snd loc)) * world_cell_size)
                (grid_cells_origin_y + world_grid_length - (real (fst loc) * world_cell_size))
                ((real orientation / real num_orientation_cells) * 2 * 3.141)))"

text \<open>
  The odometry callback. The result is the exception that left the callback, if any, and
  the node as the callback left it: assignments made before an exception stay.
\<close>

definition pose_callback :: "resampler \<Rightarrow> nav \<Rightarrow> odometry \<Rightarrow> error option \<times> nav" where
  "pose_callback resample self msg =
    (case detections self of
       None \<Rightarrow> (None, self)
     | Some dets \<Rightarrow>
        (let current_inertial_position = (position_x msg, position_y msg);
             current_inertial_orientation = orientation_yaw msg
         in case probmessage dets of
              Inl e \<Rightarrow> (Some e, self)
            | Inr pose_from_detections_probability_map \<Rightarrow>
               (case last_inertial_position self of
                  None \<Rightarrow>
                   (None, (set_center_pose_map self)
                      \<lparr> last_inertial_position := Some current_inertial_position,
                        last_inertial_orientation := Some current_inertial_orientation,
                        current_probability_map := pose_from_detections_probability_map \<rparr>)
                | Some last_position \<Rightarrow>
                   (case last_inertial_orientation self of
                      None \<Rightarrow> (Some AttributeError, self)
                    | Some last_orientation \<Rightarrow>
                       (let (moving, inertial_update_probability_map) =
                              inertial_update resample self last_position
                                current_inertial_position last_orientation
                                current_inertial_orientation;
                            self = self\<lparr> last_inertial_position := Some current_inertial_position,
                                        last_inertial_orientation :=
                                          Some current_inertial_orientation \<rparr>;
                            self = (if moving
                                    then self\<lparr> current_probability_map :=
                                                 inertial_update_probability_map,
                                               state := 0 \<rparr>
                                    else if state self = 0
                                    then self\<lparr> current_probability_map :=
                                                 (\<lambda>c. inertial_update_probability_map c
                                                       * pose_from_detections_probability_map c),
                                               state := 1 \<rparr>
                                    else self);
                            clipped = (\<lambda>c. clip_min (current_probability_map self c) 0.0);
                            self = self\<lparr> current_probability_map := clipped \<rparr>;
                            total = grid_sum (current_probability_map self);
                            normalized = (\<lambda>c. current_probability_map self c / total);
                            self = self\<lparr> current_probability_map := normalized \<rparr>;
                            self = self\<lparr> published := published self
                                          @ [ProbMapMsg (current_probability_map self)] \<rparr>
                        in case publish_pose_msg (current_probability_map self) of
                             Inl e \<Rightarrow> (Some e, self)
                           | Inr pose_msg \<Rightarrow>
                              (None, self\<lparr> published := published self @ [pose_msg] \<rparr>))))))"


section \<open>Auxiliary definitions\<close>

text \<open>The body of the loop of \<open>probmessage_cond_a\<close>, in two pieces: the term that one
  detection contributes, and its addition to the running sum.\<close>

definition accumulate :: "error + grid \<Rightarrow> error + grid \<Rightarrow> error + grid" where
  "accumulate acc t =
     (case acc of
        Inl e \<Rightarrow> Inl e
      | Inr cum_prob \<Rightarrow> (case t of Inl e \<Rightarrow> Inl e | Inr g \<Rightarrow> Inr (\<lambda>c. cum_prob c + g c)))"

definition assignment_term ::
  "nat \<Rightarrow> nat list \<Rightarrow> nat \<Rightarrow> detection \<Rightarrow> detection list \<Rightarrow> error + grid" where
  "assignment_term proposal remaining_proposals n d rem_detections =
     (case object_at proposal of
        Inl e \<Rightarrow> Inl e
      | Inr (proposal_name, od) \<Rightarrow>
         (case results d of
            [] \<Rightarrow> Inl IndexError
          | class_id # _ \<Rightarrow>
             (case probmessage_cond_a rem_detections remaining_proposals of
                Inl e \<Rightarrow> Inl e
              | Inr rem_prob \<Rightarrow>
                 Inr (\<lambda>c. ((if proposal_name \<noteq> class_id
                             then (\<lambda>c. prob_map (bbox d) (bounding_boxes od) c * Fin 0.0)
                             else prob_map (bbox d) (bounding_boxes od)) c * rem_prob c)
                           / Fin (real n)))))"


text \<open>
  The subset marginal as the specification words it:
  \<open>p(D | pose)\<close> is the sum over all subsets \<open>A\<close> of the landmarks of
  \<open>p(A | pose) * p(D | A, pose)\<close>, where \<open>p(A | pose)\<close> is the product of
  \<open>detectability j\<close> over the landmarks \<open>j\<close> in \<open>A\<close> and of \<open>1 - detectability j\<close> over the
  others, and \<open>p(D | A, pose)\<close> is \<open>probmessage_cond_a\<close>.
\<close>

definition detectability :: "nat \<Rightarrow> grid" where
  "detectability j c =
     (case object_at j of Inl e \<Rightarrow> NaN | Inr (object_name, od) \<Rightarrow> detection_probabilities od c)"

definition subset_weight :: "nat list \<Rightarrow> grid" where
  "subset_weight A c =
     fold (\<lambda>j acc. acc * (if j \<in> set A then detectability j c
                           else Fin 1 - detectability j c))
       [0..<length object_list] (Fin 1)"

definition subset_marginal :: "detection list \<Rightarrow> grid" where
  "subset_marginal D c =
     sum_list (map (\<lambda>A. subset_weight A c
                        * (case probmessage_cond_a D A of Inl e \<Rightarrow> NaN | Inr p \<Rightarrow> p c))
                (subseqs [0..<length object_list]))"


text \<open>The last assignments of \<open>pose_callback\<close> to the belief: the clamp and the division
  by the sum; and the belief that the callback has chosen before them.\<close>

definition clamp_normalize :: "grid \<Rightarrow> grid" where
  "clamp_normalize m = (\<lambda>c. clip_min (m c) 0.0 / grid_sum (\<lambda>c. clip_min (m c) 0.0))"

definition updated_belief ::
  "resampler \<Rightarrow> nav \<Rightarrow> real \<times> real \<Rightarrow> real \<Rightarrow> odometry \<Rightarrow> grid \<Rightarrow> grid" where
  "updated_belief resample self last_position last_orientation msg observation =
     (let (moving, inertial_update_probability_map) =
            inertial_update resample self last_position (position_x msg, position_y msg)
              last_orientation (orientation_yaw msg)
      in if moving then inertial_update_probability_map
         else if state self = 0
         then (\<lambda>c. inertial_update_probability_map c * observation c)
         else current_probability_map self)"

text \<open>
  A scenario for concrete statements: the node receives an empty detections list, then a
  first odometry message at the origin. Two resamplers stand for the library routines:
  \<open>keep\<close> returns the belief as it is; \<open>lose\<close> returns the zero grid when the position
  kernel is shifted by 11 cells or more, out of its 11 by 11 window
  (\<open>scipy.ndimage.shift\<close> with \<open>mode='constant', cval=0.0\<close> fills with zeros), and the
  belief otherwise.
\<close>

abbreviation still_odometry :: odometry where
  "still_odometry \<equiv> \<lparr> position_x = 0, position_y = 0, orientation_yaw = 0 \<rparr>"

abbreviation keep :: resampler where
  "keep \<equiv> (\<lambda>belief shift turn. belief)"

abbreviation lose :: resampler where
  "lose \<equiv> (\<lambda>belief shift turn. if 11 \<le> \<bar>shift\<bar> then (\<lambda>c. Fin 0) else belief)"

abbreviation after_first_odometry :: "resampler \<Rightarrow> nav" where
  "after_first_odometry resample \<equiv>
     snd (pose_callback resample (detections_callback init []) still_odometry)"

text \<open>The two rotated coordinates of \<open>world_to_camera\<close>, for the statements below.\<close>

abbreviation rot_x :: "world_point \<Rightarrow> cell \<Rightarrow> real" where
  "rot_x P c \<equiv> sin (world_theta c) * (point_y P - world_y c)
               + cos (world_theta c) * (point_x P - world_x c)"

abbreviation rot_y :: "world_point \<Rightarrow> cell \<Rightarrow> real" where
  "rot_y P c \<equiv> cos (world_theta c) * (point_y P - world_y c)
               - sin (world_theta c) * (point_x P - world_x c)"


section \<open>Grid geometry\<close>

lemma world_position_50: "world_position 50 = 0"
  by (simp add: world_position_def world_cell_size_def world_grid_length_def num_grid_cells_def)

lemma init_simps:
  "detections init = None" "published init = []" "last_inertial_position init = None"
  "state init = 0" "current_probability_map init c = Fin (1 / 1305728)"
  by (simp_all add: init_def set_uniform_pose_map_def num_grid_cells_def
      num_orientation_cells_def)

section \<open>Projection\<close>

text \<open>
  Claim C4. For a world point \<open>P\<close> and a cell whose yaw is 0 and whose position is
  \<open>(P.x - d, P.y)\<close> with \<open>d > 0\<close>, so that the point lies straight ahead of the robot,
  \<open>world_to_camera\<close> returns \<open>u = 160\<close> and \<open>v = 120 - f_y * (P.z - z_robot) / d\<close>.
\<close>

theorem world_to_camera_ahead:
  assumes "world_theta c = 0" and "world_x c = point_x P - d" and "world_y c = point_y P"
    and "0 < d"
  shows "world_to_camera P c
         = CameraPoint (Fin 160) (Fin (120 - f_y * (point_z P - world_z) / d))"
  using assms by (simp add: world_to_camera_def Let_def)

theorem world_to_camera_ahead_witness:
  "world_theta (50, 50, 0) = 0 \<and> world_x (50, 50, 0) = point_x (WorldPoint 1.5 0 0.27) - 1.5
   \<and> world_y (50, 50, 0) = point_y (WorldPoint 1.5 0 0.27) \<and> (0::real) < 1.5
   \<and> world_to_camera (WorldPoint 1.5 0 0.27) (50, 50, 0)
       = CameraPoint (Fin 160) (Fin (120 - f_y * (point_z (WorldPoint 1.5 0 0.27) - world_z) / 1.5))"
proof -
  have a: "world_theta (50, 50, 0) = 0" by (simp add: world_thetas_def)
  have b: "world_x (50, 50, 0) = point_x (WorldPoint 1.5 0 0.27) - 1.5"
    by (simp add: world_xs_def world_position_50)
  have c: "world_y (50, 50, 0) = point_y (WorldPoint 1.5 0 0.27)"
    by (simp add: world_ys_def num_grid_cells_def world_position_50)
  have d: "(0::real) < 1.5" by simp
  from world_to_camera_ahead [OF a b c d] a b c d show ?thesis by blast
qed

section \<open>Detectability\<close>

lemma clip_min_cases:
  "clip_min t 0 = NaN \<or> clip_min t 0 = PInf \<or> (\<exists>a\<ge>0. clip_min t 0 = Fin a)"
  by (cases t) auto

lemma clip_pair:
  assumes "w = NaN \<or> w = PInf \<or> (\<exists>a\<ge>0. w = Fin a)" and "lo \<le> hi"
  shows "clip (cx + w) lo hi - clip (cx - w) lo hi = NaN
         \<or> (\<exists>d\<ge>0. clip (cx + w) lo hi - clip (cx - w) lo hi = Fin d)"
  using assms by (cases cx; cases w) (auto simp: minus_tfloat_def)

lemma area_cases:
  assumes "A = NaN \<or> (\<exists>d\<ge>0. A = Fin d)" and "B = NaN \<or> (\<exists>d\<ge>0. B = Fin d)"
  shows "A * B = NaN \<or> (\<exists>d\<ge>0. A * B = Fin d)"
  using assms by (cases A; cases B) auto

lemma len_prod_cases:
  assumes "w = NaN \<or> w = PInf \<or> (\<exists>a\<ge>0. w = Fin a)"
    and "h = NaN \<or> h = PInf \<or> (\<exists>a\<ge>0. h = Fin a)"
  shows "w * h = NaN \<or> w * h = PInf \<or> (\<exists>a\<ge>0. w * h = Fin a)"
  using assms by (cases w; cases h) (auto simp: inf_of_def sgn_if)

lemma real_ratio:
  fixes x y :: real
  assumes "0 \<le> x" "0 \<le> y" "y + x \<noteq> 0"
  shows "0 \<le> x / (y + x)" "x / (y + x) \<le> 1"
  using assms by (simp_all add: divide_le_eq_1)

lemma ratio_cases:
  assumes "A = NaN \<or> (\<exists>d\<ge>0. A = Fin d)"
    and "P = NaN \<or> P = PInf \<or> (\<exists>a\<ge>0. P = Fin a)"
  shows "\<exists>r. nan_to_num (A / (P + A)) 0 = Fin r \<and> 0 \<le> r \<and> r \<le> 1"
  using assms by (cases A; cases P) (auto simp: inf_of_def sgn_if real_ratio)

lemma mix_range:
  "Fin 0.05 * (Fin 1 - Fin r) + Fin 0.95 * Fin r = Fin (0.05 + 0.9 * r)"
  by (simp add: minus_tfloat_def) argo

lemma box_probability_range:
  assumes w: "width b = NaN \<or> width b = PInf \<or> (\<exists>a\<ge>0. width b = Fin a)"
    and h: "height b = NaN \<or> height b = PInf \<or> (\<exists>a\<ge>0. height b = Fin a)"
  shows "\<exists>r. box_probability b = Fin r \<and> 0.05 \<le> r \<and> r \<le> 0.95"
proof -
  let ?A = "(clip (cam_x (center b) + width b) (- 160) 160
             - clip (cam_x (center b) - width b) (- 160) 160)
            * (clip (cam_y (center b) + height b) (- 120) 120
               - clip (cam_y (center b) - height b) (- 120) 120)"
  have A: "?A = NaN \<or> (\<exists>d\<ge>0. ?A = Fin d)"
    by (rule area_cases) (rule clip_pair [OF w], simp, rule clip_pair [OF h], simp)
  obtain r where r: "nan_to_num (?A / (width b * height b + ?A)) 0 = Fin r" "0 \<le> r" "r \<le> 1"
    using ratio_cases [OF A len_prod_cases [OF w h]] by blast
  have "box_probability b = Fin 0.05 * (Fin 1 - Fin r) + Fin 0.95 * Fin r"
    using r(1) by (simp add: box_probability_def Let_def)
  with mix_range have "box_probability b = Fin (0.05 + 0.9 * r)" by simp
  with r(2,3) show ?thesis by auto
qed

lemma detectability_range:
  "\<exists>r. box_probability (world_to_bbox world_object c) = Fin r \<and> 0.05 \<le> r \<and> r \<le> 0.95"
  by (rule box_probability_range) (simp_all add: world_to_bbox_def Let_def clip_min_cases)

text \<open>
  Claim C6. For every landmark and every cell of the pose grid, the detectability that
  \<open>box_probability\<close> computes from the projected box is a finite number between 0.05 and
  1.00, also where the projected box is not finite: a \<open>NaN\<close> area ratio is replaced by 0,
  which gives 0.05.
\<close>

theorem box_probability_bounds:
  "\<exists>r. box_probability (world_to_bbox world_object c) = Fin r \<and> 0.05 \<le> r \<and> r \<le> 1.00"
proof -
  obtain r where "box_probability (world_to_bbox world_object c) = Fin r"
    and "0.05 \<le> r" and "r \<le> 0.95"
    using detectability_range by blast
  then show ?thesis by force
qed

section \<open>Motion\<close>

text \<open>
  Claim C5. For two consecutive odometry samples, \<open>inertial_update\<close> reports moving exactly
  when the Euclidean norm of the position difference exceeds 0.001 metres or the absolute
  yaw difference exceeds 0.001 radians.
\<close>

theorem inertial_update_moving:
  "fst (inertial_update resample self last_position current_position
          last_orientation current_orientation)
   \<longleftrightarrow> sqrt ((fst current_position - fst last_position)\<^sup>2
              + (snd current_position - snd last_position)\<^sup>2) > 0.001
       \<or> \<bar>current_orientation - last_orientation\<bar> > 0.001"
  by (simp add: inertial_update_def Let_def)

section \<open>The odometry callback\<close>

text \<open>
  Claim C8. An odometry message that arrives while no detections message has been received
  leaves the callback at once: no exception, nothing published, no field of the node
  changed. For the node as initialised, the belief therefore stays the uniform one.
\<close>

theorem pose_callback_before_detections:
  assumes "detections self = None"
  shows "pose_callback resample self msg = (None, self)
         \<and> detections init = None
         \<and> current_probability_map init c
             = Fin (1 / real (num_grid_cells * num_grid_cells * num_orientation_cells))"
  using assms
  by (simp add: pose_callback_def init_simps num_grid_cells_def num_orientation_cells_def)

theorem pose_callback_before_detections_witness:
  "detections init = None
   \<and> pose_callback (\<lambda>belief shift turn. belief) init
        \<lparr> position_x = 0, position_y = 0, orientation_yaw = 0 \<rparr> = (None, init)
   \<and> published init = []
   \<and> current_probability_map init (50, 50, 0) = Fin (1 / 1305728)"
proof -
  have a: "detections init = None" by (simp add: init_simps)
  from pose_callback_before_detections [OF a, of "\<lambda>belief shift turn. belief"
      "\<lparr> position_x = 0, position_y = 0, orientation_yaw = 0 \<rparr>" "(50, 50, 0)"] a
  show ?thesis by (simp add: init_simps)
qed


section \<open>The projected boxes on the grid\<close>

lemma set_cells:
  "(iy, ix, itheta) \<in> set cells \<longleftrightarrow> iy < 101 \<and> ix < 101 \<and> itheta < 128"
  by (auto simp: cells_def num_grid_cells_def num_orientation_cells_def image_iff)

lemma world_position_bounds:
  assumes "i < 101"
  shows "- 1.5 < world_position i" and "world_position i < 1.5"
proof -
  have "real i \<le> 100" using assms by simp
  then show "- 1.5 < world_position i" and "world_position i < 1.5"
    by (simp_all add: world_position_def world_cell_size_def world_grid_length_def
        num_grid_cells_def field_simps)
qed

lemma world_xy_bounds:
  assumes "c \<in> set cells"
  shows "- 1.5 < world_x c" "world_x c < 1.5" "- 1.5 < world_y c" "world_y c < 1.5"
proof -
  obtain iy ix itheta where c: "c = (iy, ix, itheta)" by (cases c) auto
  with assms have b: "iy < 101" "ix < 101" by (simp_all add: set_cells)
  then have "100 - iy < 101" by simp
  with b c world_position_bounds [of ix] world_position_bounds [of "100 - iy"]
  show "- 1.5 < world_x c" "world_x c < 1.5" "- 1.5 < world_y c" "world_y c < 1.5"
    by (simp_all add: world_xs_def world_ys_def num_grid_cells_def)
qed

lemma cam_x_cases:
  "cam_x (world_to_camera P c) =
     (if rot_x P c = 0 then inf_of (sgn (- rot_y P c))
      else Fin (160 + f_x * (- rot_y P c) / rot_x P c))"
  by (simp add: world_to_camera_def Let_def inf_of_def sgn_if f_x_def)

lemma cam_y_cases:
  "cam_y (world_to_camera P c) =
     (if rot_x P c = 0 then inf_of (sgn (world_z - point_z P))
      else Fin (120 + f_y * (- (point_z P - world_z)) / rot_x P c))"
  by (simp add: world_to_camera_def Let_def inf_of_def sgn_if f_y_def)

lemma cam_x_same:
  assumes "point_x P = point_x Q" "point_y P = point_y Q"
  shows "cam_x (world_to_camera P c) = cam_x (world_to_camera Q c)"
  using assms by (simp add: cam_x_cases)

lemma half_double: "u \<noteq> NaN \<Longrightarrow> (u + u) / Fin 2 = u"
  by (cases u) (simp_all add: inf_of_def)

lemma half_sum_low:
  assumes "a \<noteq> NaN \<and> a \<noteq> PInf" "b \<noteq> NaN \<and> b \<noteq> PInf"
  shows "(a + b) / Fin 2 \<noteq> NaN \<and> (a + b) / Fin 2 \<noteq> PInf"
  using assms by (cases a; cases b) (simp_all add: inf_of_def)

lemma half_sum_high:
  assumes "a \<noteq> NaN \<and> a \<noteq> NInf" "b \<noteq> NaN \<and> b \<noteq> NInf"
  shows "(a + b) / Fin 2 \<noteq> NaN \<and> (a + b) / Fin 2 \<noteq> NInf"
  using assms by (cases a; cases b) (simp_all add: inf_of_def)

lemma high_minus_low:
  assumes "a \<noteq> NaN \<and> a \<noteq> NInf" "b \<noteq> NaN \<and> b \<noteq> PInf"
  shows "clip_min (a - b) 0 \<noteq> NaN"
  using assms by (cases a; cases b) (simp_all add: minus_tfloat_def)

lemma cam_y_above:
  assumes "world_z < point_z P"
  shows "cam_y (world_to_camera P c) \<noteq> NaN \<and> cam_y (world_to_camera P c) \<noteq> PInf"
  using assms by (simp add: cam_y_cases inf_of_def)

lemma cam_y_below:
  assumes "point_z P < world_z"
  shows "cam_y (world_to_camera P c) \<noteq> NaN \<and> cam_y (world_to_camera P c) \<noteq> NInf"
  using assms by (simp add: cam_y_cases inf_of_def)

lemma width_not_NaN:
  assumes "u \<noteq> NaN" "v \<noteq> NaN" "(\<exists>r. u = Fin r) \<or> (\<exists>r. v = Fin r)"
  shows "clip_min (v - u) 0 \<noteq> NaN"
  using assms by (cases u; cases v) (auto simp: minus_tfloat_def)

lemma world_to_bbox_no_NaN:
  assumes L: "point_x (top_left ob) = point_x (bottom_left ob)"
             "point_y (top_left ob) = point_y (bottom_left ob)"
    and R: "point_x (top_right ob) = point_x (bottom_right ob)"
           "point_y (top_right ob) = point_y (bottom_right ob)"
    and top: "world_z < point_z (top_left ob)" "world_z < point_z (top_right ob)"
    and bot: "point_z (bottom_left ob) < world_z" "point_z (bottom_right ob) < world_z"
    and cz: "point_z (centre ob) \<noteq> world_z"
    and cxy: "rot_x (centre ob) c \<noteq> 0 \<or> rot_y (centre ob) c \<noteq> 0"
    and lxy: "rot_x (bottom_left ob) c \<noteq> 0 \<or> rot_y (bottom_left ob) c \<noteq> 0"
    and rxy: "rot_x (bottom_right ob) c \<noteq> 0 \<or> rot_y (bottom_right ob) c \<noteq> 0"
    and lr: "rot_x (bottom_left ob) c \<noteq> 0 \<or> rot_x (bottom_right ob) c \<noteq> 0"
  shows "cam_x (center (world_to_bbox ob c)) \<noteq> NaN"
    and "cam_y (center (world_to_bbox ob c)) \<noteq> NaN"
    and "width (world_to_bbox ob c) \<noteq> NaN"
    and "height (world_to_bbox ob c) \<noteq> NaN"
proof -
  show "cam_x (center (world_to_bbox ob c)) \<noteq> NaN"
    using cxy by (auto simp: world_to_bbox_def Let_def cam_x_cases inf_of_def sgn_if)
  show "cam_y (center (world_to_bbox ob c)) \<noteq> NaN"
    using cz by (auto simp: world_to_bbox_def Let_def cam_y_cases inf_of_def sgn_if)
  let ?uL = "cam_x (world_to_camera (bottom_left ob) c)"
  let ?uR = "cam_x (world_to_camera (bottom_right ob) c)"
  have uL: "?uL \<noteq> NaN" using lxy by (auto simp: cam_x_cases inf_of_def sgn_if)
  have uR: "?uR \<noteq> NaN" using rxy by (auto simp: cam_x_cases inf_of_def sgn_if)
  have tl: "cam_x (world_to_camera (top_left ob) c) = ?uL" by (rule cam_x_same) (rule L)+
  have tr: "cam_x (world_to_camera (top_right ob) c) = ?uR" by (rule cam_x_same) (rule R)+
  have fin: "(\<exists>r. ?uL = Fin r) \<or> (\<exists>r. ?uR = Fin r)"
    using lr by (auto simp: cam_x_cases)
  have "width (world_to_bbox ob c) = clip_min (?uR - ?uL) 0"
    by (simp add: world_to_bbox_def Let_def tl tr half_double [OF uL] half_double [OF uR])
  with width_not_NaN [OF uL uR fin] show "width (world_to_bbox ob c) \<noteq> NaN" by simp
  have "height (world_to_bbox ob c)
        = clip_min ((cam_y (world_to_camera (bottom_left ob) c)
                      + cam_y (world_to_camera (bottom_right ob) c)) / Fin 2
                    - (cam_y (world_to_camera (top_left ob) c)
                        + cam_y (world_to_camera (top_right ob) c)) / Fin 2) 0"
    by (simp add: world_to_bbox_def Let_def)
  moreover have "\<dots> \<noteq> NaN"
    by (intro high_minus_low half_sum_high half_sum_low cam_y_above cam_y_below top bot)
  ultimately show "height (world_to_bbox ob c) \<noteq> NaN" by simp
qed

lemma cell_50_50_0:
  "world_theta (50, 50, 0) = 0" "world_x (50, 50, 0) = 0" "world_y (50, 50, 0) = 0"
  by (simp_all add: world_thetas_def world_xs_def world_ys_def num_grid_cells_def
      world_position_50)

lemma centre_cell_in_grid: "(50, 50, 0) \<in> set cells"
  by (simp add: set_cells)

lemma world_to_camera_centre_cell:
  "point_x P \<noteq> 0 \<Longrightarrow> world_to_camera P (50, 50, 0) =
     CameraPoint (Fin (160 + f_x * (- point_y P) / point_x P))
                 (Fin (120 - f_y * (point_z P - world_z) / point_x P))"
  by (simp add: world_to_camera_def Let_def world_thetas_def world_xs_def world_ys_def
      num_grid_cells_def world_position_50)

lemma dog_box_centre_cell:
  "world_to_bbox world_dog (50, 50, 0) =
     \<lparr> center = CameraPoint (Fin 160) (Fin 114.12), width = Fin (10868 / 150), height = Fin 98 \<rparr>"
  by (simp add: world_to_bbox_def world_dog_def Let_def world_to_camera_centre_cell
      f_x_def f_y_def world_z_def minus_tfloat_def)

lemma cat_box_centre_cell:
  "world_to_bbox world_cat (50, 50, 0) =
     \<lparr> center = CameraPoint (Fin 1642) (Fin 102.36), width = Fin (41800 / 61),
       height = Fin (245000 / 793) \<rparr>"
  by (simp add: world_to_bbox_def world_cat_def Let_def world_to_camera_centre_cell
      f_x_def f_y_def world_z_def minus_tfloat_def)

lemma dog_detectability_centre_cell:
  "box_probability (world_to_bbox world_dog (50, 50, 0)) = Fin (1057 / 2060)"
  by (simp add: dog_box_centre_cell box_probability_def Let_def minus_tfloat_def)

lemma cat_detectability_centre_cell:
  "box_probability (world_to_bbox world_cat (50, 50, 0)) = Fin 0.05"
  by (simp add: cat_box_centre_cell box_probability_def Let_def minus_tfloat_def)

lemma rotation_kernel:
  fixes s k tx ty :: real
  assumes one: "k * k + s * s = 1" and rx: "s * ty + k * tx = 0" and ry: "k * ty - s * tx = 0"
  shows "tx = 0" and "ty = 0"
proof -
  have "tx = (k * k + s * s) * tx" using one by simp
  also have "\<dots> = k * (s * ty + k * tx) - s * (k * ty - s * tx)" by (simp add: algebra_simps)
  finally show "tx = 0" using rx ry by simp
  have "ty = (k * k + s * s) * ty" using one by simp
  also have "\<dots> = s * (s * ty + k * tx) + k * (k * ty - s * tx)" by (simp add: algebra_simps)
  finally show "ty = 0" using rx ry by simp
qed

lemma rot_zero:
  assumes "rot_x P c = 0" "rot_y P c = 0"
  shows "point_x P = world_x c" "point_y P = world_y c"
  using rotation_kernel [OF sin_cos_squared_add3 assms] by simp_all

lemma common_offset:
  fixes s k a b d :: real
  assumes "s * a + k * d = 0" "s * b + k * d = 0" "a \<noteq> b"
  shows "s = 0"
proof -
  from assms(1,2) have "s * a + k * d = s * b + k * d" by (rule trans [OF _ sym])
  then have "s * a = s * b" by (rule add_right_imp_eq)
  with assms(3) show ?thesis by simp
qed

lemma sin_cos_not_both_zero: "sin t = 0 \<Longrightarrow> cos t = (0::real) \<Longrightarrow> False"
  using sin_cos_squared_add [of t] by simp

lemma dog_boxes_no_NaN:
  assumes "c \<in> set cells"
  shows "cam_x (center (world_to_bbox world_dog c)) \<noteq> NaN"
    and "cam_y (center (world_to_bbox world_dog c)) \<noteq> NaN"
    and "width (world_to_bbox world_dog c) \<noteq> NaN"
    and "height (world_to_bbox world_dog c) \<noteq> NaN"
proof -
  note b = world_xy_bounds [OF assms]
  have cxy: "rot_x (centre world_dog) c \<noteq> 0 \<or> rot_y (centre world_dog) c \<noteq> 0"
    using rot_zero(1) [where P = "centre world_dog" and c = c] b by (auto simp: world_dog_def)
  have lxy: "rot_x (bottom_left world_dog) c \<noteq> 0 \<or> rot_y (bottom_left world_dog) c \<noteq> 0"
    using rot_zero(1) [where P = "bottom_left world_dog" and c = c] b by (auto simp: world_dog_def)
  have rxy: "rot_x (bottom_right world_dog) c \<noteq> 0 \<or> rot_y (bottom_right world_dog) c \<noteq> 0"
    using rot_zero(1) [where P = "bottom_right world_dog" and c = c] b by (auto simp: world_dog_def)
  have lr: "rot_x (bottom_left world_dog) c \<noteq> 0 \<or> rot_x (bottom_right world_dog) c \<noteq> 0"
  proof (rule ccontr)
    assume "\<not> ?thesis"
    then have l: "sin (world_theta c) * (0.11 - world_y c)
                  + cos (world_theta c) * (1.5 - world_x c) = 0"
      and r: "sin (world_theta c) * (- 0.11 - world_y c)
                  + cos (world_theta c) * (1.5 - world_x c) = 0"
      by (simp_all add: world_dog_def)
    from l r have s: "sin (world_theta c) = 0" by (rule common_offset) simp
    with l b have "cos (world_theta c) = 0" by simp
    with s show False by (rule sin_cos_not_both_zero)
  qed
  show "cam_x (center (world_to_bbox world_dog c)) \<noteq> NaN"
    and "cam_y (center (world_to_bbox world_dog c)) \<noteq> NaN"
    and "width (world_to_bbox world_dog c) \<noteq> NaN"
    and "height (world_to_bbox world_dog c) \<noteq> NaN"
    by (rule world_to_bbox_no_NaN [OF _ _ _ _ _ _ _ _ _ cxy lxy rxy lr];
        simp add: world_dog_def world_z_def)+
qed

lemma cat_boxes_no_NaN:
  assumes "c \<in> set cells"
  shows "cam_x (center (world_to_bbox world_cat c)) \<noteq> NaN"
    and "cam_y (center (world_to_bbox world_cat c)) \<noteq> NaN"
    and "width (world_to_bbox world_cat c) \<noteq> NaN"
    and "height (world_to_bbox world_cat c) \<noteq> NaN"
proof -
  note b = world_xy_bounds [OF assms]
  have cxy: "rot_x (centre world_cat) c \<noteq> 0 \<or> rot_y (centre world_cat) c \<noteq> 0"
    using rot_zero(2) [where P = "centre world_cat" and c = c] b by (auto simp: world_cat_def)
  have lxy: "rot_x (bottom_left world_cat) c \<noteq> 0 \<or> rot_y (bottom_left world_cat) c \<noteq> 0"
    using rot_zero(2) [where P = "bottom_left world_cat" and c = c] b by (auto simp: world_cat_def)
  have rxy: "rot_x (bottom_right world_cat) c \<noteq> 0 \<or> rot_y (bottom_right world_cat) c \<noteq> 0"
    using rot_zero(2) [where P = "bottom_right world_cat" and c = c] b by (auto simp: world_cat_def)
  have lr: "rot_x (bottom_left world_cat) c \<noteq> 0 \<or> rot_x (bottom_right world_cat) c \<noteq> 0"
  proof (rule ccontr)
    assume "\<not> ?thesis"
    then have l: "cos (world_theta c) * (0.5 - 0.11 - world_x c)
                  + sin (world_theta c) * (1.5 - world_y c) = 0"
      and r: "cos (world_theta c) * (0.5 + 0.11 - world_x c)
                  + sin (world_theta c) * (1.5 - world_y c) = 0"
      by (simp_all add: world_cat_def)
    from l r have k: "cos (world_theta c) = 0" by (rule common_offset) simp
    with l b have "sin (world_theta c) = 0" by simp
    then show False using k by (rule sin_cos_not_both_zero)
  qed
  show "cam_x (center (world_to_bbox world_cat c)) \<noteq> NaN"
    and "cam_y (center (world_to_bbox world_cat c)) \<noteq> NaN"
    and "width (world_to_bbox world_cat c) \<noteq> NaN"
    and "height (world_to_bbox world_cat c) \<noteq> NaN"
    by (rule world_to_bbox_no_NaN [OF _ _ _ _ _ _ _ _ _ cxy lxy rxy lr];
        simp add: world_cat_def world_z_def)+
qed

section \<open>Box likelihood\<close>

lemma sum_list_Fin: "sum_list (map (\<lambda>c. Fin (f c)) cs) = Fin (sum_list (map f cs))"
  by (induction cs) (simp_all add: zero_tfloat_def)

lemma fpow_2: "fpow t 2 = (case t of NaN \<Rightarrow> NaN | Fin a \<Rightarrow> Fin (a\<^sup>2) | _ \<Rightarrow> PInf)"
  by (cases t) (simp_all add: numeral_2_eq_2)

lemma normal_log_prob_cases:
  "normal_log_prob loc 25 v =
     (case loc of NaN \<Rightarrow> NaN
      | Fin a \<Rightarrow> Fin (- ((v - a)\<^sup>2) / (2 * 25\<^sup>2) - ln 25 - ln (sqrt (2 * pi)))
      | _ \<Rightarrow> NInf)"
  by (cases loc) (auto simp: normal_log_prob_def fpow_2 minus_tfloat_def inf_of_def sgn_if)

lemma normal_log_prob_range:
  assumes "loc \<noteq> NaN"
  shows "normal_log_prob loc 25 v = NInf \<or> (\<exists>r. normal_log_prob loc 25 v = Fin r)"
  using assms by (cases loc) (simp_all add: normal_log_prob_cases)

lemma normal_log_prob_Fin: "\<exists>r. normal_log_prob (Fin a) 25 v = Fin r"
  by (simp add: normal_log_prob_cases)

lemma plus_range:
  assumes "a = NInf \<or> (\<exists>r. a = Fin r)" and "b = NInf \<or> (\<exists>r. b = Fin r)"
  shows "a + b = NInf \<or> (\<exists>r. a + b = Fin r)"
  using assms by auto

lemma sum_list_member_le:
  fixes f :: "'a \<Rightarrow> real"
  assumes "\<And>x. x \<in> set xs \<Longrightarrow> 0 \<le> f x" and "y \<in> set xs"
  shows "f y \<le> sum_list (map f xs)"
  using assms
proof (induction xs)
  case Nil
  then show ?case by simp
next
  case (Cons x xs)
  have nn: "0 \<le> sum_list (map f xs)"
    by (rule sum_list_nonneg) (use Cons.prems(1) in auto)
  show ?case
  proof (cases "y = x")
    case True
    with nn show ?thesis by simp
  next
    case False
    with Cons.prems have "y \<in> set xs" by simp
    with Cons have "f y \<le> sum_list (map f xs)" by simp
    moreover have "0 \<le> f x" using Cons.prems(1) by simp
    ultimately show ?thesis by simp
  qed
qed

text \<open>Softmax over a list of cells: the normalised exponentials are probabilities.\<close>

lemma softmax_normalised:
  fixes R :: "'a \<Rightarrow> tfloat"
  assumes range: "\<And>c. c \<in> set cs \<Longrightarrow> R c = NInf \<or> (\<exists>r. R c = Fin r)"
    and fin: "c0 \<in> set cs" "R c0 = Fin r0"
  shows "(\<forall>c\<in>set cs. \<exists>p\<ge>0. fexp (R c - fln (sum_list (map (\<lambda>c. fexp (R c)) cs))) = Fin p)
         \<and> sum_list (map (\<lambda>c. fexp (R c - fln (sum_list (map (\<lambda>c. fexp (R c)) cs)))) cs)
             = Fin 1"
proof -
  define e where "e c = (case R c of Fin r \<Rightarrow> exp r | _ \<Rightarrow> 0)" for c
  define S where "S = sum_list (map e cs)"
  have e_nonneg: "0 \<le> e c" for c
    by (cases "R c") (simp_all add: e_def)
  have fexp_e: "fexp (R c) = Fin (e c)" if "c \<in> set cs" for c
    using range [OF that] by (auto simp: e_def)
  have "sum_list (map (\<lambda>c. fexp (R c)) cs) = sum_list (map (\<lambda>c. Fin (e c)) cs)"
    by (rule arg_cong [where f = sum_list], rule map_cong) (simp_all add: fexp_e)
  then have total: "sum_list (map (\<lambda>c. fexp (R c)) cs) = Fin S"
    by (simp add: sum_list_Fin S_def)
  have "0 < e c0" using fin(2) by (simp add: e_def)
  moreover have "e c0 \<le> S"
    unfolding S_def by (rule sum_list_member_le) (simp_all add: e_nonneg fin(1))
  ultimately have S_pos: "0 < S" by simp
  then have lse: "fln (Fin S) = Fin (ln S)" by simp
  have cell: "fexp (R c - fln (sum_list (map (\<lambda>c. fexp (R c)) cs))) = Fin (e c / S)"
    if "c \<in> set cs" for c
    using range [OF that] S_pos
    by (auto simp: total lse e_def minus_tfloat_def exp_diff exp_minus divide_inverse)
  have first: "\<forall>c\<in>set cs. \<exists>p\<ge>0. fexp (R c - fln (sum_list (map (\<lambda>c. fexp (R c)) cs))) = Fin p"
    using cell e_nonneg S_pos by (auto intro!: divide_nonneg_pos)
  have "sum_list (map (\<lambda>c. fexp (R c - fln (sum_list (map (\<lambda>c. fexp (R c)) cs)))) cs)
        = sum_list (map (\<lambda>c. Fin (e c * inverse S)) cs)"
    by (rule arg_cong [where f = sum_list], rule map_cong) (simp_all add: cell divide_inverse)
  then have "sum_list (map (\<lambda>c. fexp (R c - fln (sum_list (map (\<lambda>c. fexp (R c)) cs)))) cs)
        = Fin (sum_list (map (\<lambda>c. e c * inverse S) cs))"
    by (simp add: sum_list_Fin)
  also have "sum_list (map (\<lambda>c. e c * inverse S) cs) = S * inverse S"
    by (simp add: sum_list_mult_const S_def)
  also have "S * inverse S = 1" using S_pos by simp
  finally show ?thesis using first by blast
qed

lemma prob_map_normalised:
  assumes nonan: "\<And>c. c \<in> set cells \<Longrightarrow>
      cam_x (center (boxes c)) \<noteq> NaN \<and> cam_y (center (boxes c)) \<noteq> NaN
      \<and> width (boxes c) \<noteq> NaN \<and> height (boxes c) \<noteq> NaN"
    and fin: "c0 \<in> set cells"
      "boxes c0 = \<lparr> center = CameraPoint (Fin a) (Fin b), width = Fin w, height = Fin h \<rparr>"
  shows "(\<forall>c\<in>set cells. \<exists>p\<ge>0. prob_map box boxes c = Fin p)
         \<and> grid_sum (prob_map box boxes) = Fin 1"
proof -
  let ?R = "\<lambda>c. normal_log_prob (cam_x (center (boxes c))) 25 (center_position_x box)
                + normal_log_prob (width (boxes c)) 25 (size_x box)
                + normal_log_prob (height (boxes c)) 25 (size_y box)
                + normal_log_prob (cam_y (center (boxes c))) 25 (center_position_y box)"
  have range: "?R c = NInf \<or> (\<exists>r. ?R c = Fin r)" if "c \<in> set cells" for c
    using nonan [OF that] by (intro plus_range normal_log_prob_range) simp_all
  obtain r0 where r0: "?R c0 = Fin r0"
    by (simp add: fin(2) normal_log_prob_cases)
  have eq: "prob_map box boxes
            = (\<lambda>c. fexp (?R c - fln (sum_list (map (\<lambda>c. fexp (?R c)) cells))))"
    by (simp add: prob_map_def Let_def logsumexp_def grid_sum_def)
  from softmax_normalised [of cells ?R, OF range fin(1) r0]
  show ?thesis unfolding eq grid_sum_def by simp
qed

text \<open>
  Claim C3. For every detection box and every landmark of the dictionary, the grid that
  \<open>prob_map\<close> returns (four Gaussian log-likelihoods with scale 25, minus their
  log-sum-exp over the grid, exponentiated) is a non-negative number at every cell and sums
  to 1 over the grid. Cells where a predicted box is infinite get probability 0; no
  predicted box of the two landmarks is \<open>NaN\<close>.
\<close>

theorem prob_map_is_distribution:
  assumes "object_dictionary landmark = Some od"
  shows "(\<forall>c\<in>set cells. \<exists>p\<ge>0. prob_map box (bounding_boxes od) c = Fin p)
         \<and> grid_sum (prob_map box (bounding_boxes od)) = Fin 1"
proof -
  from assms have "bounding_boxes od = world_to_bbox world_dog
                   \<or> bounding_boxes od = world_to_bbox world_cat"
    by (auto simp: object_dictionary_def split: if_splits)
  then show ?thesis
  proof
    assume od: "bounding_boxes od = world_to_bbox world_dog"
    show ?thesis unfolding od
      by (rule prob_map_normalised [where boxes = "world_to_bbox world_dog" and ?c0.0 = "(50, 50, 0)",
            OF _ centre_cell_in_grid dog_box_centre_cell])
        (simp add: dog_boxes_no_NaN)
  next
    assume od: "bounding_boxes od = world_to_bbox world_cat"
    show ?thesis unfolding od
      by (rule prob_map_normalised [where boxes = "world_to_bbox world_cat" and ?c0.0 = "(50, 50, 0)",
            OF _ centre_cell_in_grid cat_box_centre_cell])
        (simp add: cat_boxes_no_NaN)
  qed
qed

theorem prob_map_is_distribution_witness:
  "object_dictionary ''dog''
     = Some \<lparr> bounding_boxes = world_to_bbox world_dog,
              detection_probabilities = (\<lambda>c. box_probability (world_dog_boxes c)) \<rparr>
   \<and> (50, 50, 0) \<in> set cells
   \<and> (\<exists>p\<ge>0.
        prob_map \<lparr> center_position_x = 160, center_position_y = 120, size_x = 84, size_y = 104 \<rparr>
          (world_to_bbox world_dog) (50, 50, 0) = Fin p)
   \<and> grid_sum (prob_map
        \<lparr> center_position_x = 160, center_position_y = 120, size_x = 84, size_y = 104 \<rparr>
        (world_to_bbox world_dog)) = Fin 1"
proof -
  have a: "object_dictionary ''dog''
     = Some \<lparr> bounding_boxes = world_to_bbox world_dog,
              detection_probabilities = (\<lambda>c. box_probability (world_dog_boxes c)) \<rparr>"
    by (simp add: object_dictionary_def)
  from prob_map_is_distribution [OF a,
      of "\<lparr> center_position_x = 160, center_position_y = 120, size_x = 84, size_y = 104 \<rparr>"]
    a centre_cell_in_grid
  show ?thesis by simp
qed


section \<open>Data association\<close>

lemma cond_a_Cons:
  "probmessage_cond_a D (p # ps) =
     fold (\<lambda>i acc. accumulate acc
             (assignment_term p ps (length D) (D ! i) (take i D @ drop (i + 1) D)))
       [0..<length D] (Inr (\<lambda>c. Fin (world_x c * 0.0)))"
  unfolding probmessage_cond_a.simps
  by (rule arg_cong [where f = "\<lambda>f. fold f [0..<length D] (Inr (\<lambda>c. Fin (world_x c * 0.0)))"])
    (auto simp: fun_eq_iff accumulate_def assignment_term_def Let_def
      split: sum.splits list.splits prod.splits)

lemma object_at_error: "object_at idx = Inl e \<Longrightarrow> e = IndexError"
  by (auto simp: object_at_def object_list_def object_dictionary_def nth_Cons'
      split: if_splits option.splits)

lemma accumulate_commute:
  assumes "\<And>e. t1 = Inl e \<Longrightarrow> e = IndexError" "\<And>e. t2 = Inl e \<Longrightarrow> e = IndexError"
  shows "accumulate (accumulate acc t1) t2 = accumulate (accumulate acc t2) t1"
  using assms
  by (cases acc; cases t1; cases t2) (auto simp: accumulate_def fun_eq_iff ac_simps)

lemma fold_accumulate_error:
  assumes "\<And>x e. x \<in> set xs \<Longrightarrow> f x = Inl e \<Longrightarrow> e = IndexError"
    and "\<And>e. a = Inl e \<Longrightarrow> e = IndexError"
    and "fold (\<lambda>x acc. accumulate acc (f x)) xs a = Inl e"
  shows "e = IndexError"
  using assms
proof (induction xs arbitrary: a)
  case Nil
  then show ?case by simp
next
  case (Cons x xs)
  have step: "e' = IndexError" if "accumulate a (f x) = Inl e'" for e'
    using that Cons.prems(1) [of x] Cons.prems(2)
    by (auto simp: accumulate_def split: sum.splits)
  have rest: "e' = IndexError" if "y \<in> set xs" "f y = Inl e'" for y e'
    using that Cons.prems(1) [of y] by simp
  from Cons.prems(3) have "fold (\<lambda>x acc. accumulate acc (f x)) xs (accumulate a (f x)) = Inl e"
    by simp
  then show ?case
    by (rule Cons.IH [where a = "accumulate a (f x)", rotated 2]) (erule (1) rest, erule step)
qed

lemma assignment_term_error:
  assumes "\<And>e. probmessage_cond_a R ps = Inl e \<Longrightarrow> e = IndexError"
    and "assignment_term p ps n d R = Inl e"
  shows "e = IndexError"
  using assms object_at_error [of p]
  by (auto simp: assignment_term_def split: sum.splits list.splits prod.splits)

lemma cond_a_error: "probmessage_cond_a D ps = Inl e \<Longrightarrow> e = IndexError"
proof (induction ps arbitrary: D e)
  case Nil
  then show ?case by simp
next
  case (Cons p ps)
  show ?case
  proof (rule fold_accumulate_error [OF _ _ Cons.prems [unfolded cond_a_Cons]])
    fix i e' assume "assignment_term p ps (length D) (D ! i) (take i D @ drop (i + 1) D) = Inl e'"
    then show "e' = IndexError" by (rule assignment_term_error [rotated]) (rule Cons.IH)
  qed simp
qed

lemma mset_without_nth:
  assumes "i < length D"
  shows "mset (take i D @ drop (i + 1) D) = mset D - {#D ! i#}"
proof -
  have "mset D = mset (take i D @ D ! i # drop (Suc i) D)"
    using id_take_nth_drop [OF assms] by simp
  then show ?thesis by simp
qed

lemma assignment_term_cong:
  assumes "probmessage_cond_a R ps = probmessage_cond_a R' ps"
  shows "assignment_term p ps n d R = assignment_term p ps n d R'"
  using assms by (simp add: assignment_term_def split: sum.splits prod.splits list.splits)

lemma fold_over_elements:
  "fold (\<lambda>i. f (D ! i)) [0..<length D] a = fold f D a"
proof -
  have "fold f (map ((!) D) [0..<length D]) a = fold (\<lambda>i. f (D ! i)) [0..<length D] a"
    by (simp add: fold_map comp_def)
  then show ?thesis by (simp add: map_nth)
qed

lemma cond_a_permutation:
  "mset D = mset D' \<Longrightarrow> probmessage_cond_a D ps = probmessage_cond_a D' ps"
proof (induction ps arbitrary: D D')
  case Nil
  then show ?case using mset_eq_length [OF Nil] by simp
next
  case (Cons p ps)
  let ?z = "Inr (\<lambda>c. Fin (world_x c * 0.0)) :: error + grid"
  let ?G = "\<lambda>d acc. accumulate acc (assignment_term p ps (length D) d (remove1 d D))"
  have len: "length D' = length D" using mset_eq_length [OF Cons.prems] by simp
  have elements: "probmessage_cond_a E (p # ps) = fold ?G E ?z" if E: "mset E = mset D" for E
  proof -
    have lenE: "length E = length D" using mset_eq_length [OF E] .
    have "probmessage_cond_a E (p # ps)
          = fold (\<lambda>i acc. accumulate acc
             (assignment_term p ps (length E) (E ! i) (take i E @ drop (i + 1) E)))
            [0..<length E] ?z"
      by (rule cond_a_Cons)
    also have "\<dots> = fold (\<lambda>i. ?G (E ! i)) [0..<length E] ?z"
    proof (rule fold_cong [OF refl refl])
      fix i assume "i \<in> set [0..<length E]"
      then have i: "i < length E" by simp
      have "mset (take i E @ drop (i + 1) E) = mset (remove1 (E ! i) D)"
        using mset_without_nth [OF i] E by simp
      then have "assignment_term p ps (length D) (E ! i) (take i E @ drop (i + 1) E)
                 = assignment_term p ps (length D) (E ! i) (remove1 (E ! i) D)"
        by (intro assignment_term_cong Cons.IH)
      then show "(\<lambda>acc. accumulate acc
             (assignment_term p ps (length E) (E ! i) (take i E @ drop (i + 1) E)))
            = ?G (E ! i)"
        by (simp add: lenE)
    qed
    also have "\<dots> = fold ?G E ?z"
      by (rule fold_over_elements)
    finally show ?thesis .
  qed
  have "fold ?G D ?z = fold ?G D' ?z"
  proof (rule arg_cong [where f = "\<lambda>f. f ?z"], rule fold_multiset_equiv [OF _ Cons.prems])
    fix x y
    show "?G x \<circ> ?G y = ?G y \<circ> ?G x"
      by (auto simp: fun_eq_iff intro!: accumulate_commute
          elim!: assignment_term_error [rotated] cond_a_error)
  qed
  with elements [of D] elements [of D'] Cons.prems show ?case by simp
qed

text \<open>
  Claim C10. For a detections list and any permutation of it, \<open>probmessage\<close> returns the
  same result: the same grid at every cell, or the same exception. The order in which the
  detections are listed does not matter (in exact arithmetic; the rounding of floating-point
  sums is not modelled).
\<close>

theorem probmessage_permutation:
  assumes "mset D' = mset D"
  shows "probmessage D' = probmessage D"
proof -
  have same: "probmessage_cond_a D' = probmessage_cond_a D"
    by (rule ext) (rule cond_a_permutation [OF assms])
  show ?thesis unfolding probmessage_def same by (rule refl)
qed


theorem probmessage_permutation_witness:
  "mset [\<lparr> bbox = \<lparr> center_position_x = 181, center_position_y = 121, size_x = 122,
                    size_y = 227 \<rparr>, results = [''cat''] \<rparr>,
         \<lparr> bbox = \<lparr> center_position_x = 160, center_position_y = 120, size_x = 84,
                    size_y = 104 \<rparr>, results = [''dog''] \<rparr>]
   = mset [\<lparr> bbox = \<lparr> center_position_x = 160, center_position_y = 120, size_x = 84,
                      size_y = 104 \<rparr>, results = [''dog''] \<rparr>,
           \<lparr> bbox = \<lparr> center_position_x = 181, center_position_y = 121, size_x = 122,
                      size_y = 227 \<rparr>, results = [''cat''] \<rparr>]
   \<and> probmessage
        [\<lparr> bbox = \<lparr> center_position_x = 181, center_position_y = 121, size_x = 122,
                    size_y = 227 \<rparr>, results = [''cat''] \<rparr>,
         \<lparr> bbox = \<lparr> center_position_x = 160, center_position_y = 120, size_x = 84,
                    size_y = 104 \<rparr>, results = [''dog''] \<rparr>]
     = probmessage
        [\<lparr> bbox = \<lparr> center_position_x = 160, center_position_y = 120, size_x = 84,
                    size_y = 104 \<rparr>, results = [''dog''] \<rparr>,
         \<lparr> bbox = \<lparr> center_position_x = 181, center_position_y = 121, size_x = 122,
                    size_y = 227 \<rparr>, results = [''cat''] \<rparr>]"
proof -
  let ?dog = "\<lparr> bbox = \<lparr> center_position_x = 160, center_position_y = 120, size_x = 84,
                      size_y = 104 \<rparr>, results = [''dog''] \<rparr>"
  let ?cat = "\<lparr> bbox = \<lparr> center_position_x = 181, center_position_y = 121, size_x = 122,
                      size_y = 227 \<rparr>, results = [''cat''] \<rparr>"
  have a: "mset [?cat, ?dog] = mset [?dog, ?cat]" by simp
  from probmessage_permutation [OF a] a show ?thesis by blast
qed

section \<open>The subset weights\<close>

lemma comb_eval:
  "product_lists (replicate 2 [False, True])
   = [[False, False], [False, True], [True, False], [True, True]]"
  by (simp add: numeral_2_eq_2)

lemma upt_2: "[0..<2] = [0, 1]"
  by (simp add: numeral_2_eq_2)

lemma object_at_0:
  "object_at 0 = Inr (''dog'', \<lparr> bounding_boxes = world_to_bbox world_dog,
       detection_probabilities = (\<lambda>c. box_probability (world_dog_boxes c)) \<rparr>)"
  by (simp add: object_at_def object_list_def object_dictionary_def)

lemma object_at_1:
  "object_at 1 = Inr (''cat'', \<lparr> bounding_boxes = world_to_bbox world_cat,
       detection_probabilities = (\<lambda>c. box_probability (world_cat_boxes c)) \<rparr>)"
  by (simp add: object_at_def object_list_def object_dictionary_def)

lemma object_at_Suc_0:
  "object_at (Suc 0) = Inr (''cat'', \<lparr> bounding_boxes = world_to_bbox world_cat,
       detection_probabilities = (\<lambda>c. box_probability (world_cat_boxes c)) \<rparr>)"
  using object_at_1 by simp

lemma cond_a_no_detections:
  "probmessage_cond_a [] [] = Inr (\<lambda>c. Fin 1)"
  "probmessage_cond_a [] (p # ps) = Inr (\<lambda>c. Fin 0)"
  by simp_all

lemma probmessage_no_detections:
  "probmessage [] =
     Inr (\<lambda>c. Fin 0
           + Fin 1 * (Fin 1 * (Fin 1 - box_probability (world_dog_boxes c))
                      * box_probability (world_cat_boxes c))
           + Fin 0 * (Fin 1 * (Fin 1 - box_probability (world_dog_boxes c))
                      * box_probability (world_cat_boxes c))
           + Fin 0 * (Fin 1 * (Fin 1 - box_probability (world_dog_boxes c))
                      * box_probability (world_cat_boxes c))
           + Fin 0 * (Fin 1 * (Fin 1 - box_probability (world_dog_boxes c))
                      * box_probability (world_cat_boxes c)))"
  by (simp add: probmessage_def comb_eval upt_2 object_at_0 object_at_Suc_0
      cond_a_no_detections enumerate_eq_zip)

lemma subseqs_2: "subseqs [0..<2] = [[0, 1], [0], [1], []]"
  by (simp add: upt_2)

lemma length_cells: "length cells = 1305728"
  by (simp add: cells_def length_concat comp_def sum_list_triv num_grid_cells_def
      num_orientation_cells_def)

text \<open>
  Claim C1. \<open>probmessage\<close> should weight each subset \<open>A\<close> of the landmarks by the product
  of the detectabilities of the landmarks in \<open>A\<close> and of one minus the detectabilities of
  the others. The inner loop tests the index instead of the entry of the assignment, so
  every subset gets the weight \<open>(1 - detectability dog) * detectability cat\<close>. With no
  detection, at the cell \<open>(50, 50, 0)\<close> (the pose \<open>x = 0, y = 0, yaw = 0\<close>), the code
  returns \<open>1003/41200\<close> where the subset marginal is \<open>19057/41200\<close>.
\<close>

theorem probmessage_subset_weight_mismatch:
  "(case probmessage [] of Inl e \<Rightarrow> NaN | Inr p \<Rightarrow> p (50, 50, 0)) = Fin (1003 / 41200)
   \<and> subset_marginal [] (50, 50, 0) = Fin (19057 / 41200)"
  by (simp add: probmessage_no_detections subset_marginal_def subset_weight_def
      detectability_def object_list_def upt_2 object_at_0 object_at_Suc_0
      world_dog_boxes_def world_cat_boxes_def dog_detectability_centre_cell
      cat_detectability_centre_cell minus_tfloat_def zero_tfloat_def)


section \<open>Normalisation of the belief\<close>

lemma pose_callback_belief:
  assumes "detections self = Some D" and "probmessage D = Inr observation"
    and "last_inertial_position self = Some last_position"
    and "last_inertial_orientation self = Some last_orientation"
  shows "current_probability_map (snd (pose_callback resample self msg))
         = clamp_normalize
             (updated_belief resample self last_position last_orientation msg observation)"
  using assms
  by (auto simp: pose_callback_def clamp_normalize_def updated_belief_def Let_def
      split: prod.splits sum.splits)

lemma pose_callback_first:
  assumes "detections self = Some D" and "probmessage D = Inr observation"
    and "last_inertial_position self = None"
  shows "pose_callback resample self msg
         = (None, self\<lparr> last_inertial_position := Some (position_x msg, position_y msg),
                        last_inertial_orientation := Some (orientation_yaw msg),
                        current_probability_map := observation \<rparr>)"
  using assms by (simp add: pose_callback_def set_center_pose_map_def Let_def)

lemma clamp_normalize_distribution:
  assumes fin: "\<And>c. c \<in> set cells \<Longrightarrow> m c \<noteq> NaN \<and> m c \<noteq> PInf"
    and pos: "c0 \<in> set cells" "m c0 = Fin a" "0 < a"
  shows "(\<forall>c\<in>set cells. \<exists>p\<ge>0. clamp_normalize m c = Fin p)
         \<and> grid_sum (clamp_normalize m) = Fin 1"
proof -
  define v where "v c = (case m c of Fin x \<Rightarrow> max x 0 | _ \<Rightarrow> 0)" for c
  define S where "S = sum_list (map v cells)"
  have v_nonneg: "0 \<le> v c" for c
    by (cases "m c") (simp_all add: v_def)
  have clipped: "clip_min (m c) 0 = Fin (v c)" if "c \<in> set cells" for c
    using fin [OF that] by (cases "m c") (simp_all add: v_def)
  have "sum_list (map (\<lambda>c. clip_min (m c) 0) cells) = sum_list (map (\<lambda>c. Fin (v c)) cells)"
    by (rule arg_cong [where f = sum_list], rule map_cong) (simp_all add: clipped)
  then have total: "grid_sum (\<lambda>c. clip_min (m c) 0) = Fin S"
    by (simp add: grid_sum_def sum_list_Fin S_def)
  have "v c0 = a" using pos by (simp add: v_def)
  moreover have "v c0 \<le> S"
    unfolding S_def by (rule sum_list_member_le) (simp_all add: v_nonneg pos(1))
  ultimately have S_pos: "0 < S" using pos(3) by simp
  have cell: "clamp_normalize m c = Fin (v c / S)" if "c \<in> set cells" for c
    using S_pos by (simp add: clamp_normalize_def total clipped [OF that])
  have first: "\<forall>c\<in>set cells. \<exists>p\<ge>0. clamp_normalize m c = Fin p"
    using cell v_nonneg S_pos by auto
  have "sum_list (map (clamp_normalize m) cells)
        = sum_list (map (\<lambda>c. Fin (v c * (1 / S))) cells)"
    by (rule arg_cong [where f = sum_list], rule map_cong) (simp_all add: cell)
  then have "grid_sum (clamp_normalize m) = Fin (sum_list (map (\<lambda>c. v c * (1 / S)) cells))"
    by (simp only: grid_sum_def sum_list_Fin)
  also have "sum_list (map (\<lambda>c. v c * (1 / S)) cells) = S * (1 / S)"
    by (simp only: sum_list_mult_const S_def)
  also have "S * (1 / S) = 1" using S_pos by simp
  finally show ?thesis using first by blast
qed

lemma clamp_normalize_zero_sum:
  assumes zero: "\<And>c. c \<in> set cells \<Longrightarrow> clip_min (m c) 0 = Fin 0"
    and c: "c \<in> set cells"
  shows "clamp_normalize m c = NaN"
proof -
  have "sum_list (map (\<lambda>c. clip_min (m c) 0) cells) = sum_list (map (\<lambda>c. Fin 0) cells)"
    by (rule arg_cong [where f = sum_list], rule map_cong) (simp_all add: zero)
  then have "grid_sum (\<lambda>c. clip_min (m c) 0) = Fin 0"
    by (simp add: grid_sum_def sum_list_Fin)
  then show ?thesis
    by (simp add: clamp_normalize_def zero [OF c] inf_of_def)
qed


lemma observation_no_detections:
  "\<exists>obs. probmessage [] = Inr (\<lambda>c. Fin (obs c)) \<and> (\<forall>c. 1 / 400 \<le> obs c \<and> obs c \<le> 1)"
proof -
  obtain a where a: "\<And>c. box_probability (world_dog_boxes c) = Fin (a c)
      \<and> 0.05 \<le> a c \<and> a c \<le> 0.95"
    using detectability_range [of world_dog] unfolding world_dog_boxes_def by metis
  obtain b where b: "\<And>c. box_probability (world_cat_boxes c) = Fin (b c)
      \<and> 0.05 \<le> b c \<and> b c \<le> 0.95"
    using detectability_range [of world_cat] unfolding world_cat_boxes_def by metis
  have eq: "probmessage [] = Inr (\<lambda>c. Fin ((1 - a c) * b c))"
    by (simp add: probmessage_no_detections a b minus_tfloat_def)
  have "1 / 400 \<le> (1 - a c) * b c \<and> (1 - a c) * b c \<le> 1" for c
  proof
    have "(1 / 20) * (1 / 20) \<le> (1 - a c) * b c"
      by (rule mult_mono) (use a [of c] b [of c] in simp_all)
    then show "1 / 400 \<le> (1 - a c) * b c" by simp
    have "(1 - a c) * b c \<le> 1 * 1"
      by (rule mult_mono) (use a [of c] b [of c] in simp_all)
    then show "(1 - a c) * b c \<le> 1" by simp
  qed
  then have "\<forall>c. 1 / 400 \<le> (1 - a c) * b c \<and> (1 - a c) * b c \<le> 1" by simp
  with eq show ?thesis by (intro exI [where x = "\<lambda>c. (1 - a c) * b c"] conjI)
qed

lemma sum_list_lower_bound:
  fixes f :: "'a \<Rightarrow> real"
  assumes "\<And>x. x \<in> set xs \<Longrightarrow> m \<le> f x"
  shows "m * real (length xs) \<le> sum_list (map f xs)"
  using assms by (induction xs) (auto simp: algebra_simps add_mono)

lemma after_detections:
  "detections (detections_callback init D) = Some D"
  "last_inertial_position (detections_callback init D) = None"
  "published (detections_callback init D) = []"
  by (simp_all add: detections_callback_def init_simps)

text \<open>
  Claim C2, as stated: after every return of the odometry callback that changed the belief,
  the first-odometry initialisation included, the belief is non-negative and sums to 1.
  On the first odometry message the callback stores the observation likelihood and returns
  before the clamp and the division. With no detection, every cell of that likelihood is
  at least \<open>1/400\<close>, so the belief sums to at least 3264.
\<close>

theorem first_odometry_belief_not_normalised:
  "fless (Fin 3264) (grid_sum (current_probability_map (after_first_odometry keep)))"
proof -
  obtain obs where obs: "probmessage [] = Inr (\<lambda>c. Fin (obs c))"
    and bound: "\<And>c. 1 / 400 \<le> obs c"
    using observation_no_detections by blast
  have "current_probability_map (after_first_odometry keep) = (\<lambda>c. Fin (obs c))"
    by (simp add: pose_callback_first [OF after_detections(1) obs after_detections(2)])
  then have "grid_sum (current_probability_map (after_first_odometry keep))
        = Fin (sum_list (map obs cells))"
    by (simp add: grid_sum_def sum_list_Fin)
  moreover have "(1 / 400) * real (length cells) \<le> sum_list (map obs cells)"
    by (rule sum_list_lower_bound) (rule bound)
  then have "3264 < sum_list (map obs cells)"
    by (simp add: length_cells)
  ultimately show ?thesis by simp
qed

lemma first_odometry_state:
  "\<exists>obs. probmessage [] = Inr (\<lambda>c. Fin (obs c)) \<and> (\<forall>c. 1 / 400 \<le> obs c \<and> obs c \<le> 1)
     \<and> after_first_odometry resample
         = (detections_callback init [])
             \<lparr> last_inertial_position := Some (0, 0), last_inertial_orientation := Some 0,
               current_probability_map := (\<lambda>c. Fin (obs c)) \<rparr>"
proof -
  obtain obs where obs: "probmessage [] = Inr (\<lambda>c. Fin (obs c))"
    and bound: "\<forall>c. 1 / 400 \<le> obs c \<and> obs c \<le> 1"
    using observation_no_detections by blast
  have "after_first_odometry resample
         = (detections_callback init [])
             \<lparr> last_inertial_position := Some (0, 0), last_inertial_orientation := Some 0,
               current_probability_map := (\<lambda>c. Fin (obs c)) \<rparr>"
    by (simp add: pose_callback_first [OF after_detections(1) obs after_detections(2)])
  with obs bound show ?thesis by blast
qed

lemma first_odometry_fields:
  "detections (after_first_odometry resample) = Some []"
  "last_inertial_position (after_first_odometry resample) = Some (0, 0)"
  "last_inertial_orientation (after_first_odometry resample) = Some 0"
  "state (after_first_odometry resample) = 0"
  "published (after_first_odometry resample) = []"
  using first_odometry_state [of resample]
  by (auto simp: detections_callback_def init_simps)

lemma sum_list_tfloat_Fin:
  fixes xs :: "tfloat list"
  assumes "sum_list xs = Fin s"
  shows "\<forall>x\<in>set xs. \<exists>r. x = Fin r"
  using assms
proof (induction xs arbitrary: s)
  case Nil
  then show ?case by simp
next
  case (Cons x xs)
  from Cons.prems obtain a b where "x = Fin a" "sum_list xs = Fin b"
    by (cases x; cases "sum_list xs") simp_all
  with Cons.IH show ?case by auto
qed

lemma clamped_zero_sum:
  assumes "grid_sum (\<lambda>c. clip_min (m c) 0) = Fin 0" and "c \<in> set cells"
  shows "clip_min (m c) 0 = Fin 0"
proof -
  define v where "v c = (case clip_min (m c) 0 of Fin x \<Rightarrow> x | _ \<Rightarrow> 0)" for c
  have fin: "\<exists>r. clip_min (m c) 0 = Fin r" if "c \<in> set cells" for c
    using sum_list_tfloat_Fin [OF assms(1) [unfolded grid_sum_def]] that by auto
  have clipped: "clip_min (m c) 0 = Fin (v c)" if "c \<in> set cells" for c
    using fin [OF that] by (auto simp: v_def)
  have nonneg: "0 \<le> v c" for c
    by (cases "m c") (simp_all add: v_def)
  have "sum_list (map (\<lambda>c. clip_min (m c) 0) cells) = sum_list (map (\<lambda>c. Fin (v c)) cells)"
    by (rule arg_cong [where f = sum_list], rule map_cong) (simp_all add: clipped)
  with assms(1) have "sum_list (map v cells) = 0"
    by (simp add: grid_sum_def sum_list_Fin)
  moreover have "\<And>x. x \<in> set (map v cells) \<Longrightarrow> 0 \<le> x" using nonneg by auto
  ultimately have "\<forall>x\<in>set (map v cells). x = 0"
    by (simp only: sum_list_nonneg_eq_0_iff)
  with assms(2) have "v c = 0" by simp
  with clipped [OF assms(2)] show ?thesis by simp
qed

text \<open>
  Claim C2, amended. After a return of the odometry callback that reached the clamp and the
  division by the sum, if the belief chosen before them has no \<open>NaN\<close> and no \<open>+inf\<close> cell
  and has a positive cell, the belief is a non-negative finite number at every cell and
  sums to 1.
\<close>

theorem pose_callback_normalised:
  assumes "detections self = Some D" and "probmessage D = Inr observation"
    and "last_inertial_position self = Some last_position"
    and "last_inertial_orientation self = Some last_orientation"
    and "\<forall>c\<in>set cells.
           updated_belief resample self last_position last_orientation msg observation c \<noteq> NaN
         \<and> updated_belief resample self last_position last_orientation msg observation c \<noteq> PInf"
    and "\<exists>c\<in>set cells. fless (Fin 0)
           (updated_belief resample self last_position last_orientation msg observation c)"
  shows "(\<forall>c\<in>set cells. \<exists>p\<ge>0.
            current_probability_map (snd (pose_callback resample self msg)) c = Fin p)
         \<and> grid_sum (current_probability_map (snd (pose_callback resample self msg))) = Fin 1"
proof -
  let ?m = "updated_belief resample self last_position last_orientation msg observation"
  from assms(6) obtain c0 where c0: "c0 \<in> set cells" "fless (Fin 0) (?m c0)" by blast
  with assms(5) obtain a where a: "?m c0 = Fin a" "0 < a"
    by (cases "?m c0") auto
  have "(\<forall>c\<in>set cells. \<exists>p\<ge>0. clamp_normalize ?m c = Fin p)
        \<and> grid_sum (clamp_normalize ?m) = Fin 1"
    by (rule clamp_normalize_distribution [where m = ?m and ?c0.0 = c0, OF _ c0(1) a])
      (use assms(5) in blast)
  then show ?thesis
    unfolding pose_callback_belief [OF assms(1-4)] .
qed

text \<open>
  Claim C7, amended. The callback has no test of the sum. On an odometry update that
  reaches the clamp, if the clamped belief sums to zero, the update is not skipped: every
  cell is divided by zero and becomes \<open>NaN\<close>.
\<close>

theorem pose_callback_zero_sum:
  assumes "detections self = Some D" and "probmessage D = Inr observation"
    and "last_inertial_position self = Some last_position"
    and "last_inertial_orientation self = Some last_orientation"
    and "grid_sum (\<lambda>c. clip_min
           (updated_belief resample self last_position last_orientation msg observation c) 0)
         = Fin 0"
  shows "\<forall>c\<in>set cells. current_probability_map (snd (pose_callback resample self msg)) c = NaN"
proof -
  let ?m = "updated_belief resample self last_position last_orientation msg observation"
  have "clamp_normalize ?m c = NaN" if "c \<in> set cells" for c
    by (rule clamp_normalize_zero_sum [OF clamped_zero_sum [OF assms(5)] that])
  then show ?thesis
    by (simp add: pose_callback_belief [OF assms(1-4)])
qed


lemma first_odometry_belief_centre:
  "current_probability_map (after_first_odometry resample) (50, 50, 0) = Fin (1003 / 41200)"
  by (simp add: pose_callback_first [OF after_detections(1) probmessage_no_detections
        after_detections(2)]
      world_dog_boxes_def world_cat_boxes_def dog_detectability_centre_cell
      cat_detectability_centre_cell minus_tfloat_def)

lemma jump_is_lost:
  "inertial_update lose self (0, 0) (1, 0) 0 0 = (True, \<lambda>c. Fin 0)"
  "inertial_update lose self (0, 0) (- 1, 0) 0 0 = (True, \<lambda>c. Fin 0)"
  by (simp_all add: inertial_update_def Let_def world_cell_size_def world_grid_length_def
      num_grid_cells_def)

lemma grid_sum_zero: "grid_sum (\<lambda>c. Fin 0) = Fin 0"
  by (simp add: grid_sum_def sum_list_Fin)

theorem pose_callback_normalised_witness:
  "detections (after_first_odometry keep) = Some []
   \<and> last_inertial_position (after_first_odometry keep) = Some (0, 0)
   \<and> last_inertial_orientation (after_first_odometry keep) = Some 0
   \<and> (50, 50, 0) \<in> set cells
   \<and> (\<exists>p\<ge>0. current_probability_map
          (snd (pose_callback keep (after_first_odometry keep) still_odometry)) (50, 50, 0)
        = Fin p)
   \<and> grid_sum (current_probability_map
          (snd (pose_callback keep (after_first_odometry keep) still_odometry))) = Fin 1"
proof -
  obtain obs where obs: "probmessage [] = Inr (\<lambda>c. Fin (obs c))"
    and bound: "\<forall>c. 1 / 400 \<le> obs c \<and> obs c \<le> 1"
    and st: "after_first_odometry keep
         = (detections_callback init [])
             \<lparr> last_inertial_position := Some (0, 0), last_inertial_orientation := Some 0,
               current_probability_map := (\<lambda>c. Fin (obs c)) \<rparr>"
    using first_odometry_state [of keep] by blast
  have upd: "updated_belief keep (after_first_odometry keep) (0, 0) 0 still_odometry
               (\<lambda>c. Fin (obs c)) = (\<lambda>c. Fin (obs c * obs c))"
    unfolding st
    by (simp add: updated_belief_def inertial_update_def Let_def detections_callback_def
        init_simps)
  have fin: "\<forall>c\<in>set cells.
       updated_belief keep (after_first_odometry keep) (0, 0) 0 still_odometry
         (\<lambda>c. Fin (obs c)) c \<noteq> NaN
     \<and> updated_belief keep (after_first_odometry keep) (0, 0) 0 still_odometry
         (\<lambda>c. Fin (obs c)) c \<noteq> PInf"
    by (simp add: upd)
  have "0 < obs (50, 50, 0)" using bound by (rule allE [where x = "(50, 50, 0)"]) simp
  then have pos: "\<exists>c\<in>set cells. fless (Fin 0)
       (updated_belief keep (after_first_odometry keep) (0, 0) 0 still_odometry
         (\<lambda>c. Fin (obs c)) c)"
    by (intro bexI [where x = "(50, 50, 0)"]) (simp_all add: upd centre_cell_in_grid)
  from pose_callback_normalised [OF first_odometry_fields(1) obs first_odometry_fields(2,3)
      fin pos]
    first_odometry_fields(1-3) [of keep] centre_cell_in_grid
  show ?thesis by blast
qed

theorem pose_callback_zero_sum_witness:
  "detections (after_first_odometry lose) = Some []
   \<and> last_inertial_position (after_first_odometry lose) = Some (0, 0)
   \<and> last_inertial_orientation (after_first_odometry lose) = Some 0
   \<and> (50, 50, 0) \<in> set cells
   \<and> current_probability_map
        (snd (pose_callback lose (after_first_odometry lose)
                \<lparr> position_x = - 1, position_y = 0, orientation_yaw = 0 \<rparr>)) (50, 50, 0) = NaN"
proof -
  obtain obs where obs: "probmessage [] = Inr (\<lambda>c. Fin (obs c))"
    using observation_no_detections by blast
  have zero: "grid_sum (\<lambda>c. clip_min
           (updated_belief lose (after_first_odometry lose) (0, 0) 0
              \<lparr> position_x = - 1, position_y = 0, orientation_yaw = 0 \<rparr> (\<lambda>c. Fin (obs c)) c) 0)
         = Fin 0"
    by (simp add: updated_belief_def jump_is_lost grid_sum_zero)
  from pose_callback_zero_sum [OF first_odometry_fields(1) obs first_odometry_fields(2,3) zero]
    first_odometry_fields(1-3) [of lose] centre_cell_in_grid
  show ?thesis by blast
qed

text \<open>
  Claim C7, as stated: with a zero sum the update is skipped and the prior belief retained.
  After the first odometry message the belief at the cell \<open>(50, 50, 0)\<close> is \<open>1003/41200\<close>.
  A second message one metre ahead makes the node move; the resampled belief is zero, its
  clamped sum is zero, and the belief at the cell becomes \<open>NaN\<close>.
\<close>

theorem zero_sum_belief_not_retained:
  "current_probability_map (after_first_odometry lose) (50, 50, 0) = Fin (1003 / 41200)
   \<and> fst (inertial_update lose (after_first_odometry lose) (0, 0) (1, 0) 0 0)
   \<and> grid_sum (\<lambda>c. clip_min
         (snd (inertial_update lose (after_first_odometry lose) (0, 0) (1, 0) 0 0) c) 0) = Fin 0
   \<and> current_probability_map
        (snd (pose_callback lose (after_first_odometry lose)
                \<lparr> position_x = 1, position_y = 0, orientation_yaw = 0 \<rparr>)) (50, 50, 0) = NaN"
proof -
  obtain obs where obs: "probmessage [] = Inr (\<lambda>c. Fin (obs c))"
    using observation_no_detections by blast
  let ?msg = "\<lparr> position_x = 1, position_y = 0, orientation_yaw = 0 \<rparr>"
  have upd: "updated_belief lose (after_first_odometry lose) (0, 0) 0 ?msg (\<lambda>c. Fin (obs c))
             = (\<lambda>c. Fin 0)"
    by (simp add: updated_belief_def jump_is_lost)
  note cb = pose_callback_belief [OF first_odometry_fields(1) obs first_odometry_fields(2,3),
      where resample = lose and msg = ?msg]
  have "clamp_normalize (\<lambda>c. Fin 0) (50, 50, 0) = NaN"
    by (rule clamp_normalize_zero_sum) (simp_all add: centre_cell_in_grid)
  with cb have nan: "current_probability_map
        (snd (pose_callback lose (after_first_odometry lose) ?msg)) (50, 50, 0) = NaN"
    by (simp add: upd)
  show ?thesis
    using first_odometry_belief_centre [of lose] nan
    by (simp add: jump_is_lost grid_sum_zero)
qed


section \<open>The published pose\<close>

lemma cos_coeff_values:
  "cos_coeff (Suc 0) = 0" "cos_coeff 2 = - 1 / 2" "cos_coeff 3 = 0" "cos_coeff 4 = 1 / 24"
  "cos_coeff 5 = 0" "cos_coeff 6 = - 1 / 720" "cos_coeff 7 = 0" "cos_coeff 8 = 1 / 40320"
  "cos_coeff 9 = 0" "cos_coeff 10 = - 1 / 3628800" "cos_coeff 11 = 0"
  by (simp_all add: cos_coeff_def fact_numeral)

lemma cos_partial_sum:
  fixes x :: real
  shows "(\<Sum>m<12. cos_coeff m * x ^ m)
         = 1 - x\<^sup>2 / 2 + x ^ 4 / 24 - x ^ 6 / 720 + x ^ 8 / 40320 - x ^ 10 / 3628800"
  by (simp add: lessThan_nat_numeral lessThan_Suc cos_coeff_values)

lemma cos_positive_below: "0 < cos (3141 / 2000 :: real)"
proof -
  obtain t :: real where
    expansion: "cos (3141 / 2000)
      = (\<Sum>m<12. cos_coeff m * (3141 / 2000) ^ m)
        + (cos (t + 1 / 2 * real 12 * pi) / fact 12) * (3141 / 2000) ^ 12"
    using Maclaurin_cos_expansion2 [of "3141 / 2000" 12] by auto
  have "- 1 \<le> cos (t + 1 / 2 * real 12 * pi)" by (rule cos_ge_minus_one)
  then have "- 1 * ((3141 / 2000 :: real) ^ 12 / fact 12)
             \<le> cos (t + 1 / 2 * real 12 * pi) * ((3141 / 2000) ^ 12 / fact 12)"
    by (intro mult_right_mono) simp_all
  then have "- ((3141 / 2000 :: real) ^ 12 / fact 12)
             \<le> (cos (t + 1 / 2 * real 12 * pi) / fact 12) * (3141 / 2000) ^ 12"
    by simp
  moreover have "(3141 / 2000 :: real) ^ 12 / fact 12 < 1 / 1000000"
    by (simp add: fact_numeral power_divide)
  moreover have "1 / 1000000
      < 1 - (3141 / 2000 :: real)\<^sup>2 / 2 + (3141 / 2000) ^ 4 / 24 - (3141 / 2000) ^ 6 / 720
        + (3141 / 2000) ^ 8 / 40320 - (3141 / 2000) ^ 10 / 3628800"
    by (simp add: power_divide)
  ultimately show ?thesis
    unfolding expansion cos_partial_sum by linarith
qed

lemma pi_lower_bound: "3.141 < pi"
proof (rule ccontr)
  assume "\<not> 3.141 < pi"
  then have "pi / 2 \<le> 3141 / 2000" by simp
  moreover have "(3141 / 2000 :: real) \<le> pi" using pi_ge_two by simp
  ultimately have "cos (3141 / 2000) \<le> cos (pi / 2)"
    by (intro cos_monotone_0_pi_le) simp_all
  with cos_positive_below show False by simp
qed


lemma fold_fmax_peak:
  assumes "acc = NInf \<or> acc = Fin 0 \<or> acc = Fin 1"
  shows "fold (\<lambda>x a. fmax a (if x = x0 then Fin 1 else Fin 0)) xs acc
         = (if x0 \<in> set xs \<or> acc = Fin 1 then Fin 1 else if xs = [] then acc else Fin 0)"
  using assms
proof (induction xs arbitrary: acc)
  case Nil
  then show ?case by simp
next
  case (Cons x xs)
  have step: "fmax acc (if x = x0 then Fin 1 else Fin 0)
              = (if x = x0 \<or> acc = Fin 1 then Fin 1 else Fin 0)"
    using Cons.prems by auto
  have "fold (\<lambda>x a. fmax a (if x = x0 then Fin 1 else Fin 0)) (x # xs) acc
        = fold (\<lambda>x a. fmax a (if x = x0 then Fin 1 else Fin 0)) xs
            (if x = x0 \<or> acc = Fin 1 then Fin 1 else Fin 0)"
    by (simp add: step)
  also have "\<dots> = (if x0 \<in> set (x # xs) \<or> acc = Fin 1 then Fin 1 else Fin 0)"
    by (subst Cons.IH) auto
  finally show ?case by simp
qed

lemma filter_peak_head:
  "x0 \<in> set xs \<Longrightarrow> \<exists>ys. filter (\<lambda>x. x = x0) xs = x0 # ys"
  by (induction xs) auto

lemma get_location_MLE_peak:
  assumes "(iy, ix, itheta) \<in> set cells"
  shows "get_location_MLE (\<lambda>c. if c = (iy, ix, itheta) then Fin 1 else Fin 0)
         = Inr ((iy, ix, itheta), itheta)"
proof -
  let ?b = "\<lambda>c. if c = (iy, ix, itheta) then Fin 1 else Fin 0 :: tfloat"
  have mx: "grid_max ?b = Fin 1"
    unfolding grid_max_def by (subst fold_fmax_peak) (simp_all add: assms)
  have "(\<lambda>c. feq (?b c) (Fin 1)) = (\<lambda>c. c = (iy, ix, itheta))"
    by (auto simp: fun_eq_iff)
  then obtain ys where loc: "filter (\<lambda>c. feq (?b c) (grid_max ?b)) cells = (iy, ix, itheta) # ys"
    using filter_peak_head [OF assms] by (auto simp: mx)
  have k: "itheta \<in> set [0..<num_orientation_cells]"
    using assms by (simp add: set_cells num_orientation_cells_def)
  have slice: "(\<lambda>k. ?b (iy, ix, k)) = (\<lambda>k. if k = itheta then Fin 1 else Fin 0)"
    by (auto simp: fun_eq_iff)
  have smx: "fold (\<lambda>k acc. fmax acc (if k = itheta then Fin 1 else Fin 0))
               [0..<num_orientation_cells] NInf = Fin 1"
    by (subst fold_fmax_peak) (use k in simp_all)
  have "(\<lambda>k. (if k = itheta then Fin 1 else Fin 0 :: tfloat) = Fin 1) = (\<lambda>k. k = itheta)"
    by (auto simp: fun_eq_iff)
  then obtain ks where "filter (\<lambda>k. (if k = itheta then Fin 1 else Fin 0 :: tfloat) = Fin 1)
                          [0..<num_orientation_cells] = itheta # ks"
    using filter_peak_head [OF k] by auto
  then have "argmax (\<lambda>k. ?b (iy, ix, k)) num_orientation_cells = itheta"
    unfolding slice argmax_def by (simp add: smx Let_def)
  then show ?thesis
    by (simp add: get_location_MLE_def loc Let_def)
qed

text \<open>
  Claim C9. The published pose takes the first cell that holds the maximum of the belief and
  the first yaw index that holds the maximum of its yaw slice, and converts them with
  \<open>world_x = -1.5 + ix * cell_size\<close>, \<open>world_y = -1.5 + world_grid_length - iy * cell_size\<close>
  and \<open>world_yaw = (itheta / Theta) * 2 * pi\<close>. The code multiplies by \<open>2 * 3.141\<close>, where
  the grid of yaws (\<open>world_thetas\<close>) uses \<open>2 * math.pi\<close>. For the belief with all its mass at
  the cell \<open>(50, 50, 64)\<close>, whose yaw is \<open>pi\<close>, the published yaw is \<open>3.141\<close>, which is
  less than \<open>pi\<close>.
\<close>

theorem publish_pose_msg_yaw_constant:
  "publish_pose_msg (\<lambda>c. if c = (50, 50, 64) then Fin 1 else Fin 0)
     = Inr (NavPoseMsg (- 3 / 202) (3 / 202) 3.141)
   \<and> (3.141 :: real) < (64 / 128) * 2 * pi"
proof -
  have "(50, 50, 64) \<in> set cells" by (simp add: set_cells)
  from get_location_MLE_peak [OF this] pi_lower_bound show ?thesis
    by (simp add: publish_pose_msg_def grid_cells_origin_x_def grid_cells_origin_y_def
        world_cell_size_def world_grid_length_def num_grid_cells_def num_orientation_cells_def)
qed

end
